theory Spec2Isabelle
  imports Complex_Main
begin

section \<open>Arrays\<close>

text \<open>
  The program works on numpy arrays of floats in which NaN marks a missing entry.
  A float is modelled as a real number or NaN: \<open>None\<close> is NaN, \<open>Some x\<close> the
  number \<open>x\<close> (rounding and the infinities are not modelled). A two-dimensional
  array is the list of its rows; a zero-row array has zero columns here. Numpy objects
  held in an object array (the fitted models) are addresses into a store.
\<close>

type_synonym cell = "real option"
type_synonym 'a array1 = "'a list"
type_synonym 'a array2 = "'a list list"
type_synonym mask = "bool list list"
type_synonym pos = "nat \<times> nat"
type_synonym addr = nat

datatype error =
    ValueError string
  | Exception string
  | AttributeError string
  | UnboundLocalError string
  | IndexError string
  | TypeError string

text \<open>A numpy value that is either zero-dimensional or one-dimensional.\<close>

datatype 'a nd = Scalar 'a | Vector "'a list"

text \<open>The argument of \<open>complete_row\<close>: the code tests \<open>X.ndim\<close>.\<close>

datatype ndarray = Array1 "cell list" | Array2 "cell list list"

definition n_rows :: "'a array2 \<Rightarrow> nat" where
  "n_rows X = length X"

definition n_cols :: "'a array2 \<Rightarrow> nat" where
  "n_cols X = (case X of [] \<Rightarrow> 0 | r # _ \<Rightarrow> length r)"

definition is_array2 :: "'a array2 \<Rightarrow> bool" where
  "is_array2 X = list_all (\<lambda>r. length r = n_cols X) X"

definition isnan :: "cell array2 \<Rightarrow> mask" where
  "isnan X = map (map (\<lambda>c. c = None)) X"

definition isnan1 :: "cell list \<Rightarrow> bool list" where
  "isnan1 x = map (\<lambda>c. c = None) x"

definition invert :: "mask \<Rightarrow> mask" where
  "invert M = map (map Not) M"

text \<open>\<open>X[:, j]\<close>, \<open>X[:, js]\<close> with the IndexError of an index out of range,
  \<open>a[mask]\<close> on one axis, and \<open>a[idxs]\<close>.\<close>

definition column :: "'a array2 \<Rightarrow> nat \<Rightarrow> 'a list" where
  "column X j = map (\<lambda>r. r ! j) X"

definition columns :: "'a array2 \<Rightarrow> nat list \<Rightarrow> error + 'a array2" where
  "columns X js =
     (if list_all (\<lambda>j. j < n_cols X) js then Inr (map (\<lambda>r. map (\<lambda>j. r ! j) js) X)
      else Inl (IndexError ''index is out of bounds for axis 1''))"

definition compress :: "bool list \<Rightarrow> 'a list \<Rightarrow> 'a list" where
  "compress bs xs = map snd (filter fst (zip bs xs))"

definition take_indices :: "'a list \<Rightarrow> nat list \<Rightarrow> error + 'a list" where
  "take_indices xs is =
     (if list_all (\<lambda>i. i < length xs) is then Inr (map (\<lambda>i. xs ! i) is)
      else Inl (IndexError ''index is out of bounds for axis 0''))"

definition count_true :: "bool list \<Rightarrow> nat" where
  "count_true bs = length (filter (\<lambda>b. b) bs)"

text \<open>\<open>mask.sum(axis=0)\<close>: the number of True entries of each column.\<close>

definition sum_axis0 :: "mask \<Rightarrow> nat list" where
  "sum_axis0 M = map (\<lambda>j. count_true (column M j)) [0..<n_cols M]"

text \<open>
  Boolean-mask indexing. \<open>X[M]\<close> reads, and \<open>X[M] = v\<close> writes, the True positions of
  \<open>M\<close> in row-major order; \<open>X[M[:, j], j]\<close> does so for the True rows of column \<open>j\<close>.
  A one-dimensional right-hand side must have one value per position, or a single value
  that is broadcast.
\<close>

definition get2 :: "'a array2 \<Rightarrow> pos \<Rightarrow> 'a" where
  "get2 X p = X ! fst p ! snd p"

definition set2 :: "'a array2 \<Rightarrow> pos \<Rightarrow> 'a \<Rightarrow> 'a array2" where
  "set2 X p v = X[fst p := (X ! fst p)[snd p := v]]"

definition where_true :: "mask \<Rightarrow> pos list" where
  "where_true M =
     concat (map (\<lambda>i. map (\<lambda>j. (i, j)) (filter (\<lambda>j. M ! i ! j) [0..<length (M ! i)]))
       [0..<length M])"

definition where_true_col :: "mask \<Rightarrow> nat \<Rightarrow> pos list" where
  "where_true_col M j = map (\<lambda>i. (i, j)) (filter (\<lambda>i. M ! i ! j) [0..<length M])"

definition take_positions :: "'a array2 \<Rightarrow> pos list \<Rightarrow> 'a list" where
  "take_positions X ps = map (get2 X) ps"

definition assign :: "'a array2 \<Rightarrow> (pos \<times> 'a) list \<Rightarrow> 'a array2" where
  "assign X pvs = fold (\<lambda>pv Y. set2 Y (fst pv) (snd pv)) pvs X"

definition put_positions :: "'a array2 \<Rightarrow> pos list \<Rightarrow> 'a nd \<Rightarrow> error + 'a array2" where
  "put_positions X ps rhs =
     (case rhs of
        Scalar v \<Rightarrow> Inr (assign X (map (\<lambda>p. (p, v)) ps))
      | Vector vs \<Rightarrow>
          if length vs = length ps then Inr (assign X (zip ps vs))
          else if length vs = 1 then Inr (assign X (map (\<lambda>p. (p, hd vs)) ps))
          else Inl (ValueError ''shape mismatch: value array could not be broadcast''))"

subsection \<open>Numeric functions of numpy\<close>

definition np_mean :: "cell list \<Rightarrow> cell" where
  "np_mean xs =
     (if xs = [] \<or> list_ex (\<lambda>c. c = None) xs then None
      else Some (sum_list (map the xs) / real (length xs)))"

definition np_median :: "cell list \<Rightarrow> cell" where
  "np_median xs =
     (if xs = [] \<or> list_ex (\<lambda>c. c = None) xs then None
      else let ys = sort (map the xs); n = length ys
           in if odd n then Some (ys ! (n div 2))
              else Some ((ys ! (n div 2 - 1) + ys ! (n div 2)) / 2))"

definition np_sqrt :: "cell \<Rightarrow> cell" where
  "np_sqrt c = (case c of None \<Rightarrow> None | Some x \<Rightarrow> if x < 0 then None else Some (sqrt x))"

definition np_abs :: "cell \<Rightarrow> cell" where
  "np_abs c = map_option abs c"

definition np_sub :: "cell \<Rightarrow> cell \<Rightarrow> cell" where
  "np_sub a b = (case (a, b) of (Some x, Some y) \<Rightarrow> Some (x - y) | _ \<Rightarrow> None)"

definition np_add :: "cell \<Rightarrow> cell \<Rightarrow> cell" where
  "np_add a b = (case (a, b) of (Some x, Some y) \<Rightarrow> Some (x + y) | _ \<Rightarrow> None)"

definition np_div :: "cell \<Rightarrow> cell \<Rightarrow> cell" where
  "np_div a b =
     (case (a, b) of (Some x, Some y) \<Rightarrow> if y = 0 then None else Some (x / y) | _ \<Rightarrow> None)"

definition np_sum :: "cell list \<Rightarrow> cell" where
  "np_sum xs = fold (\<lambda>x acc. np_add acc x) xs (Some 0)"

text \<open>\<open>results.mean(axis=0)\<close> of \<open>np.array(results_list)\<close>: the mean of each column
  of the collected samples; of an empty list, the scalar NaN.\<close>

definition mean_axis0 :: "cell list list \<Rightarrow> cell nd" where
  "mean_axis0 rs =
     (if rs = [] then Scalar None
      else Vector (map (\<lambda>k. np_mean (map (\<lambda>r. r ! k) rs)) [0..<length (hd rs)]))"

section \<open>The collaborators\<close>

text \<open>
  The regression model, numpy's random generator and sorting routines, and the checks
  of the base class \<open>Solver\<close> are not part of \<open>mice.py\<close>; they are parameters of the
  model. A model object has a state \<open>'m\<close> that \<open>fit\<close> replaces (the code discards
  the value \<open>brr.fit\<close> returns and then predicts with \<open>brr\<close>); \<open>'g\<close> is the state of
  the process-wide generator \<open>np.random\<close>.
\<close>

record ('m, 'g) env =
  check_input :: "cell array2 \<Rightarrow> error option"
  check_missing_value_mask :: "mask \<Rightarrow> error option"
  argsort :: "nat list \<Rightarrow> nat list"
  argpartition :: "cell list \<Rightarrow> int \<Rightarrow> error + nat list"
  corrcoef :: "cell array2 \<Rightarrow> cell array2"
  random_seed :: "int \<Rightarrow> 'g"
  randint :: "nat \<Rightarrow> 'g \<Rightarrow> nat \<times> 'g"
  choice_weighted :: "nat list \<Rightarrow> int \<Rightarrow> cell list \<Rightarrow> 'g \<Rightarrow> (error + nat list) \<times> 'g"
  random_normal :: "cell \<Rightarrow> cell \<Rightarrow> 'g \<Rightarrow> (error + cell) \<times> 'g"
  fit :: "'m \<Rightarrow> cell array2 \<Rightarrow> cell list \<Rightarrow> error + 'm"
  predict :: "'m \<Rightarrow> cell array2 \<Rightarrow> bool \<Rightarrow> 'g \<Rightarrow> (error + cell list) \<times> 'g"
  predict_dist :: "'m \<Rightarrow> cell array2 \<Rightarrow> error + (cell list \<times> cell list)"

text \<open>What numpy promises of \<open>argsort\<close>: a permutation of the indices that sorts the
  values in ascending order (the order of equal values is not fixed).\<close>

definition argsort_ok :: "(nat list \<Rightarrow> nat list) \<Rightarrow> bool" where
  "argsort_ok f =
     (\<forall>xs. distinct (f xs) \<and> set (f xs) = {0..<length xs} \<and> sorted (map (\<lambda>i. xs ! i) (f xs)))"

section \<open>The MICE object and the process state\<close>

text \<open>
  The fields \<open>__init__\<close> sets. \<open>model\<close> is the address of the model object,
  \<open>n_nearest_columns = None\<close> stands for \<open>np.infty\<close>, and \<open>fill_method\<close> is the
  \<open>init_fill_method\<close> passed on to the base class. \<open>verbose\<close> only switches
  printing, which is not modelled. The process state is the generator \<open>np.random\<close>
  and the store of model objects.
\<close>

record mice =
  visit_sequence :: string
  n_imputations :: int
  n_burn_in :: int
  n_pmm_neighbors :: int
  impute_type :: string
  model :: addr
  n_nearest_columns :: "int option"
  fill_method :: string
  min_value :: "real option"
  max_value :: "real option"
  seed :: "int option"
  fitted_models :: "addr array2 option"
  visit_indices :: "nat list option"
  column_init_values :: "cell list option"

record ('m, 'g) world =
  rng :: 'g
  heap :: "addr \<Rightarrow> 'm"

section \<open>Visit order\<close>

definition get_visit_indices :: "('m, 'g) env \<Rightarrow> mice \<Rightarrow> mask \<Rightarrow> error + nat list" where
  "get_visit_indices E self missing_mask =
     (let nc = n_cols missing_mask in
      if visit_sequence self = ''roman'' then Inr [0..<nc]
      else if visit_sequence self = ''arabic'' then Inr (rev [0..<nc])
      else if visit_sequence self = ''monotone'' then
        Inr (rev (argsort E (sum_axis0 missing_mask)))
      else if visit_sequence self = ''revmonotone'' then
        Inr (argsort E (sum_axis0 missing_mask))
      else Inl (ValueError (''Invalid choice for visit order: '' @ visit_sequence self)))"

section \<open>Clipping and random choice\<close>

text \<open>
  Modelled from the spec: \<open>Solver.clip\<close> is defined in the base class, outside
  \<open>mice.py\<close>. The spec: results are clipped to the configured
  \<open>[min_value, max_value]\<close>, unbounded on a side that is unset. NaN stays NaN.
\<close>

definition clip_value :: "mice \<Rightarrow> cell \<Rightarrow> cell" where
  "clip_value self c =
     map_option (\<lambda>x.
       let y = (case min_value self of None \<Rightarrow> x | Some a \<Rightarrow> max a x)
       in (case max_value self of None \<Rightarrow> y | Some b \<Rightarrow> min b y)) c"

definition clip :: "mice \<Rightarrow> cell list \<Rightarrow> cell list" where
  "clip self vs = map (clip_value self) vs"

text \<open>
  \<open>np.random.choice(a)\<close> and \<open>np.random.choice(a, size)\<close> draw indices below
  \<open>len(a)\<close> from the generator and read \<open>a\<close> there; an empty \<open>a\<close> is a
  ValueError.
\<close>

definition random_choice1 :: "('m, 'g) env \<Rightarrow> 'a list \<Rightarrow> 'g \<Rightarrow> (error + 'a) \<times> 'g" where
  "random_choice1 E a g =
     (if a = [] then (Inl (ValueError ''a must be non-empty''), g)
      else case randint E (length a) g of
             (i, g') \<Rightarrow>
               if i < length a then (Inr (a ! i), g')
               else (Inl (IndexError ''index is out of bounds for axis 0''), g'))"

fun random_choice :: "('m, 'g) env \<Rightarrow> 'a list \<Rightarrow> nat \<Rightarrow> 'g \<Rightarrow> (error + 'a list) \<times> 'g" where
  "random_choice E a 0 g = (Inr [], g)"
| "random_choice E a (Suc n) g =
     (case random_choice1 E a g of
        (Inl e, g1) \<Rightarrow> (Inl e, g1)
      | (Inr v, g1) \<Rightarrow>
          (case random_choice E a n g1 of
             (Inl e, g2) \<Rightarrow> (Inl e, g2)
           | (Inr vs, g2) \<Rightarrow> (Inr (v # vs), g2)))"

section \<open>Initial fill\<close>

definition fill_values :: "('m, 'g) env \<Rightarrow> mice \<Rightarrow> cell list \<Rightarrow> nat \<Rightarrow> 'g \<Rightarrow> (error + cell nd) \<times> 'g" where
  "fill_values E self observed_column n_missing g =
     (if fill_method self = ''mean'' then (Inr (Scalar (np_mean observed_column)), g)
      else if fill_method self = ''median'' then (Inr (Scalar (np_median observed_column)), g)
      else if fill_method self = ''random'' then
        (case random_choice E observed_column n_missing g of
           (Inl e, g') \<Rightarrow> (Inl e, g')
         | (Inr vs, g') \<Rightarrow> (Inr (Vector vs), g'))
      else (Inl (ValueError (''Invalid fill method '' @ fill_method self)), g))"

text \<open>Storing into one element of a float array: a scalar, or an array of one element.\<close>

definition as_element :: "'a nd \<Rightarrow> error + 'a" where
  "as_element rhs =
     (case rhs of
        Scalar v \<Rightarrow> Inr v
      | Vector vs \<Rightarrow>
          (case vs of
             [v] \<Rightarrow> Inr v
           | _ \<Rightarrow> Inl (ValueError ''setting an array element with a sequence.'')))"

definition initialize_column ::
  "('m, 'g) env \<Rightarrow> mask \<Rightarrow> mask \<Rightarrow> nat \<Rightarrow> cell array2 \<Rightarrow> mice \<Rightarrow> ('m, 'g) world
    \<Rightarrow> (error + cell array2) \<times> mice \<times> ('m, 'g) world" where
  "initialize_column E missing_mask observed_mask col_idx X_filled self w =
     (if \<not> col_idx < n_cols missing_mask then
        (Inl (IndexError ''index is out of bounds for axis 1''), self, w)
      else
        let missing_mask_col = column missing_mask col_idx;
            n_missing = count_true missing_mask_col
        in if n_missing > 0 then
             let observed_row_mask_for_col = column observed_mask col_idx;
                 observed_column = compress observed_row_mask_for_col (column X_filled col_idx)
             in (case fill_values E self observed_column n_missing (rng w) of
                   (Inl e, g) \<Rightarrow> (Inl e, self, w\<lparr>rng := g\<rparr>)
                 | (Inr fv, g) \<Rightarrow>
                     (case as_element fv of
                        Inl e \<Rightarrow> (Inl e, self, w\<lparr>rng := g\<rparr>)
                      | Inr v \<Rightarrow>
                          let self' = self\<lparr>column_init_values :=
                                map_option (\<lambda>civ. civ[col_idx := v]) (column_init_values self)\<rparr>
                          in (case put_positions X_filled (where_true_col missing_mask col_idx) fv of
                                Inl e \<Rightarrow> (Inl e, self', w\<lparr>rng := g\<rparr>)
                              | Inr X' \<Rightarrow> (Inr X', self', w\<lparr>rng := g\<rparr>))))
           else (Inr X_filled, self, w))"

fun initialize_loop ::
  "('m, 'g) env \<Rightarrow> mask \<Rightarrow> mask \<Rightarrow> nat list \<Rightarrow> cell array2 \<Rightarrow> mice \<Rightarrow> ('m, 'g) world
    \<Rightarrow> (error + cell array2) \<times> mice \<times> ('m, 'g) world" where
  "initialize_loop E mm om [] X_filled self w = (Inr X_filled, self, w)"
| "initialize_loop E mm om (col_idx # rest) X_filled self w =
     (case initialize_column E mm om col_idx X_filled self w of
        (Inl e, self', w') \<Rightarrow> (Inl e, self', w')
      | (Inr X', self', w') \<Rightarrow> initialize_loop E mm om rest X' self' w')"

definition initialize ::
  "('m, 'g) env \<Rightarrow> cell array2 \<Rightarrow> mask \<Rightarrow> mask \<Rightarrow> nat list \<Rightarrow> mice \<Rightarrow> ('m, 'g) world
    \<Rightarrow> (error + cell array2) \<times> mice \<times> ('m, 'g) world" where
  "initialize E X missing_mask observed_mask visit_idxs self w =
     initialize_loop E missing_mask observed_mask visit_idxs X
       (self\<lparr>column_init_values := Some (replicate (n_cols X) (Some 0))\<rparr>) w"

section \<open>One imputation round\<close>

text \<open>Python's \<open>xs[:k]\<close> for an integer \<open>k\<close> of either sign.\<close>

definition slice_to :: "int \<Rightarrow> 'a list \<Rightarrow> 'a list" where
  "slice_to k xs = (if 0 \<le> k then take (nat k) xs else take (nat (int (length xs) + k)) xs)"

fun map_err :: "('a \<Rightarrow> error + 'b) \<Rightarrow> 'a list \<Rightarrow> error + 'b list" where
  "map_err f [] = Inr []"
| "map_err f (x # xs) =
     (case f x of
        Inl e \<Rightarrow> Inl e
      | Inr y \<Rightarrow> (case map_err f xs of Inl e \<Rightarrow> Inl e | Inr ys \<Rightarrow> Inr (y # ys)))"

text \<open>The predictor columns of column \<open>col_idx\<close>: all the others, or, on a table wider
  than \<open>n_nearest_columns\<close>, a weighted draw without replacement.\<close>

definition other_columns ::
  "('m, 'g) env \<Rightarrow> mice \<Rightarrow> cell array2 \<Rightarrow> nat \<Rightarrow> nat \<Rightarrow> 'g \<Rightarrow> (error + nat list) \<times> 'g" where
  "other_columns E self abs_correlation_matrix nc col_idx g =
     (let ordered_column_indices = [0..<nc];
          all_others = take col_idx ordered_column_indices @ drop (col_idx + 1) ordered_column_indices
      in case n_nearest_columns self of
           None \<Rightarrow> (Inr all_others, g)
         | Some k \<Rightarrow>
             if int nc \<le> k then (Inr all_others, g)
             else if \<not> col_idx < length abs_correlation_matrix then
               (Inl (IndexError ''index is out of bounds for axis 0''), g)
             else
               let p0 = abs_correlation_matrix ! col_idx;
                   p1 = map (\<lambda>v. np_add v (Some (1 / 10000000))) p0;
                   p2 = p1[col_idx := Some 0];
                   p3 = map (\<lambda>v. np_div v (np_sum p2)) p2
               in choice_weighted E ordered_column_indices k p3 g)"

fun choose_neighbors :: "('m, 'g) env \<Rightarrow> nat list list \<Rightarrow> 'g \<Rightarrow> (error + nat list) \<times> 'g" where
  "choose_neighbors E [] g = (Inr [], g)"
| "choose_neighbors E (neighbor_index # rest) g =
     (case random_choice1 E neighbor_index g of
        (Inl e, g1) \<Rightarrow> (Inl e, g1)
      | (Inr i, g1) \<Rightarrow>
          (case choose_neighbors E rest g1 of
             (Inl e, g2) \<Rightarrow> (Inl e, g2)
           | (Inr is, g2) \<Rightarrow> (Inr (i # is), g2)))"

text \<open>The PMM procedure. \<open>np.ix_\<close> selects rows and columns of the unchanged
  \<open>X_filled\<close>, which are the rows of \<open>X_other_cols\<close>.\<close>

definition impute_pmm ::
  "('m, 'g) env \<Rightarrow> mice \<Rightarrow> 'm \<Rightarrow> cell array2 \<Rightarrow> bool list \<Rightarrow> bool list \<Rightarrow> cell list \<Rightarrow> 'g
    \<Rightarrow> (error + cell list) \<times> 'g" where
  "impute_pmm E self brr X_other_cols missing_rows observed_rows column_values_observed g =
     (let X_missing = compress missing_rows X_other_cols in
      case predict E brr X_missing True g of
        (Inl e, g1) \<Rightarrow> (Inl e, g1)
      | (Inr col_preds_missing, g1) \<Rightarrow>
          let X_observed = compress observed_rows X_other_cols in
          (case predict E brr X_observed False g1 of
             (Inl e, g2) \<Rightarrow> (Inl e, g2)
           | (Inr col_preds_observed, g2) \<Rightarrow>
               let D = map (\<lambda>pm. map (\<lambda>po. np_abs (np_sub pm po)) col_preds_observed)
                         col_preds_missing;
                   k = min (n_pmm_neighbors self) (int (length col_preds_observed) - 1)
               in (case map_err (\<lambda>d. argpartition E d k) D of
                     Inl e \<Rightarrow> (Inl e, g2)
                   | Inr parts \<Rightarrow>
                       let k_nearest_indices = map (slice_to k) parts in
                       (case choose_neighbors E k_nearest_indices g2 of
                          (Inl e, g3) \<Rightarrow> (Inl e, g3)
                        | (Inr imputed_indices, g3) \<Rightarrow>
                            (take_indices column_values_observed imputed_indices, g3)))))"

text \<open>\<open>np.random.normal(mus, sigmas)\<close> on two arrays of one length: one draw per
  element, in order (the broadcast of arrays of different lengths is not modelled).\<close>

fun random_normals ::
  "('m, 'g) env \<Rightarrow> cell list \<Rightarrow> cell list \<Rightarrow> 'g \<Rightarrow> (error + cell list) \<times> 'g" where
  "random_normals E [] [] g = (Inr [], g)"
| "random_normals E (mu # mus) (sigma # sigmas) g =
     (case random_normal E mu sigma g of
        (Inl e, g1) \<Rightarrow> (Inl e, g1)
      | (Inr v, g1) \<Rightarrow>
          (case random_normals E mus sigmas g1 of
             (Inl e, g2) \<Rightarrow> (Inl e, g2)
           | (Inr vs, g2) \<Rightarrow> (Inr (v # vs), g2)))"
| "random_normals E _ _ g =
     (Inl (ValueError ''shape mismatch: objects cannot be broadcast to a single shape''), g)"

text \<open>The column method: a draw from the posterior predictive distribution.\<close>

definition impute_col ::
  "('m, 'g) env \<Rightarrow> 'm \<Rightarrow> cell array2 \<Rightarrow> bool list \<Rightarrow> 'g \<Rightarrow> (error + cell list) \<times> 'g" where
  "impute_col E brr X_other_cols missing_rows g =
     (let X_other_cols_missing = compress missing_rows X_other_cols in
      case predict_dist E brr X_other_cols_missing of
        Inl e \<Rightarrow> (Inl e, g)
      | Inr (mus, sigmas_squared) \<Rightarrow>
          let sigmas = map np_sqrt sigmas_squared in random_normals E mus sigmas g)"

text \<open>The choice between the two methods has no final \<open>else\<close>: with any other
  \<open>impute_type\<close> the variable \<open>imputed_values\<close> is unbound when it is clipped.\<close>

definition imputed_values_for ::
  "('m, 'g) env \<Rightarrow> mice \<Rightarrow> 'm \<Rightarrow> cell array2 \<Rightarrow> bool list \<Rightarrow> bool list \<Rightarrow> cell list \<Rightarrow> 'g
    \<Rightarrow> (error + cell list) \<times> 'g" where
  "imputed_values_for E self brr X_other_cols missing_rows observed_rows column_values_observed g =
     (if impute_type self = ''pmm'' then
        impute_pmm E self brr X_other_cols missing_rows observed_rows column_values_observed g
      else if impute_type self = ''col'' then
        impute_col E brr X_other_cols missing_rows g
      else
        (Inl (UnboundLocalError ''imputed_values referenced before assignment''), g))"

text \<open>\<open>self.fitted_models[round_index][col_idx] = brr\<close>: the slot receives the
  reference \<open>brr\<close>, that is the address of \<open>self.model\<close>.\<close>

definition save_fitted_model :: "mice \<Rightarrow> nat option \<Rightarrow> nat \<Rightarrow> addr \<Rightarrow> error + mice" where
  "save_fitted_model self round_index col_idx brr =
     (case round_index of
        None \<Rightarrow> Inr self
      | Some m \<Rightarrow>
          (case fitted_models self of
             None \<Rightarrow> Inl (TypeError ''NoneType object is not subscriptable'')
           | Some fm \<Rightarrow>
               if m < length fm \<and> col_idx < length (fm ! m) then
                 Inr (self\<lparr>fitted_models := Some (fm[m := (fm ! m)[col_idx := brr]])\<rparr>)
               else Inl (IndexError ''index is out of bounds'')))"

definition impute_column ::
  "('m, 'g) env \<Rightarrow> mask \<Rightarrow> mask \<Rightarrow> nat option \<Rightarrow> cell array2 \<Rightarrow> nat \<Rightarrow> cell array2 \<Rightarrow> mice
    \<Rightarrow> ('m, 'g) world \<Rightarrow> (error + cell array2) \<times> mice \<times> ('m, 'g) world" where
  "impute_column E missing_mask observed_mask round_index abs_correlation_matrix col_idx
     X_filled self w =
     (if \<not> col_idx < n_cols missing_mask then
        (Inl (IndexError ''index is out of bounds for axis 1''), self, w)
      else
        let missing_row_mask_for_this_col = column missing_mask col_idx;
            n_missing_for_this_col = sum_axis0 missing_mask ! col_idx
        in if n_missing_for_this_col > 0 then
             let observed_row_mask_for_this_col = column observed_mask col_idx;
                 column_values = column X_filled col_idx;
                 column_values_observed = compress observed_row_mask_for_this_col column_values
             in (case other_columns E self abs_correlation_matrix (n_cols X_filled) col_idx (rng w) of
                   (Inl e, g1) \<Rightarrow> (Inl e, self, w\<lparr>rng := g1\<rparr>)
                 | (Inr other_column_indices, g1) \<Rightarrow>
                     (case columns X_filled other_column_indices of
                        Inl e \<Rightarrow> (Inl e, self, w\<lparr>rng := g1\<rparr>)
                      | Inr X_other_cols \<Rightarrow>
                          let X_other_cols_observed =
                                compress observed_row_mask_for_this_col X_other_cols;
                              brr = model self
                          in (case fit E (heap w brr) X_other_cols_observed column_values_observed of
                                Inl e \<Rightarrow> (Inl e, self, w\<lparr>rng := g1\<rparr>)
                              | Inr fitted \<Rightarrow>
                                  let w1 = w\<lparr>rng := g1, heap := (heap w)(brr := fitted)\<rparr> in
                                  (case save_fitted_model self round_index col_idx brr of
                                     Inl e \<Rightarrow> (Inl e, self, w1)
                                   | Inr self1 \<Rightarrow>
                                       (case imputed_values_for E self1 (heap w1 brr) X_other_cols
                                               missing_row_mask_for_this_col
                                               observed_row_mask_for_this_col
                                               column_values_observed (rng w1) of
                                          (Inl e, g2) \<Rightarrow> (Inl e, self1, w1\<lparr>rng := g2\<rparr>)
                                        | (Inr imputed_values, g2) \<Rightarrow>
                                            (case put_positions X_filled
                                                    (where_true_col missing_mask col_idx)
                                                    (Vector (clip self1 imputed_values)) of
                                               Inl e \<Rightarrow> (Inl e, self1, w1\<lparr>rng := g2\<rparr>)
                                             | Inr X' \<Rightarrow> (Inr X', self1, w1\<lparr>rng := g2\<rparr>)))))))
           else (Inr X_filled, self, w))"

fun round_loop ::
  "('m, 'g) env \<Rightarrow> mask \<Rightarrow> mask \<Rightarrow> nat option \<Rightarrow> cell array2 \<Rightarrow> nat list \<Rightarrow> cell array2 \<Rightarrow> mice
    \<Rightarrow> ('m, 'g) world \<Rightarrow> (error + cell array2) \<times> mice \<times> ('m, 'g) world" where
  "round_loop E mm om round_index acm [] X_filled self w = (Inr X_filled, self, w)"
| "round_loop E mm om round_index acm (col_idx # rest) X_filled self w =
     (case impute_column E mm om round_index acm col_idx X_filled self w of
        (Inl e, self', w') \<Rightarrow> (Inl e, self', w')
      | (Inr X', self', w') \<Rightarrow> round_loop E mm om round_index acm rest X' self' w')"

definition exceeds_nearest_columns :: "mice \<Rightarrow> nat \<Rightarrow> bool" where
  "exceeds_nearest_columns self nc =
     (case n_nearest_columns self of None \<Rightarrow> False | Some k \<Rightarrow> int nc > k)"

definition perform_imputation_round ::
  "('m, 'g) env \<Rightarrow> cell array2 \<Rightarrow> mask \<Rightarrow> mask \<Rightarrow> nat list \<Rightarrow> nat option \<Rightarrow> mice
    \<Rightarrow> ('m, 'g) world \<Rightarrow> (error + cell array2) \<times> mice \<times> ('m, 'g) world" where
  "perform_imputation_round E X_filled missing_mask observed_mask visit_idxs round_index self w =
     (let abs_correlation_matrix =
            (if exceeds_nearest_columns self (n_cols X_filled)
             then map (map np_abs) (corrcoef E X_filled) else [])
      in round_loop E missing_mask observed_mask round_index abs_correlation_matrix
           visit_idxs X_filled self w)"

section \<open>The rounds and the average\<close>

fun rounds_loop ::
  "('m, 'g) env \<Rightarrow> mask \<Rightarrow> mask \<Rightarrow> nat list \<Rightarrow> nat list \<Rightarrow> cell array2 \<Rightarrow> cell list list
    \<Rightarrow> mice \<Rightarrow> ('m, 'g) world \<Rightarrow> (error + cell list list) \<times> mice \<times> ('m, 'g) world" where
  "rounds_loop E mm om visit_idxs [] X_filled results_list self w = (Inr results_list, self, w)"
| "rounds_loop E mm om visit_idxs (m # ms) X_filled results_list self w =
     (case perform_imputation_round E X_filled mm om visit_idxs (Some m) self w of
        (Inl e, self', w') \<Rightarrow> (Inl e, self', w')
      | (Inr X', self', w') \<Rightarrow>
          rounds_loop E mm om visit_idxs ms X'
            (if int m \<ge> n_burn_in self' then results_list @ [take_positions X' (where_true mm)]
             else results_list)
            self' w')"

definition multiple_imputations ::
  "('m, 'g) env \<Rightarrow> cell array2 \<Rightarrow> mice \<Rightarrow> ('m, 'g) world
    \<Rightarrow> (error + cell list list \<times> mask) \<times> mice \<times> ('m, 'g) world" where
  "multiple_imputations E X self w =
     (case check_input E X of
        Some e \<Rightarrow> (Inl e, self, w)
      | None \<Rightarrow>
          let missing_mask = isnan X in
          (case check_missing_value_mask E missing_mask of
             Some e \<Rightarrow> (Inl e, self, w)
           | None \<Rightarrow>
               (case get_visit_indices E self missing_mask of
                  Inl e \<Rightarrow> (Inl e, self, w)
                | Inr visit_idxs \<Rightarrow>
                    let self1 = self\<lparr>visit_indices := Some visit_idxs\<rparr>;
                        observed_mask = invert missing_mask
                    in (case initialize E X missing_mask observed_mask visit_idxs self1 w of
                          (Inl e, self2, w2) \<Rightarrow> (Inl e, self2, w2)
                        | (Inr X_filled, self2, w2) \<Rightarrow>
                            let total_rounds = n_burn_in self2 + n_imputations self2 in
                            (case rounds_loop E missing_mask observed_mask visit_idxs
                                    [0..<nat total_rounds] X_filled [] self2 w2 of
                               (Inl e, self3, w3) \<Rightarrow> (Inl e, self3, w3)
                             | (Inr results_list, self3, w3) \<Rightarrow>
                                 (Inr (results_list, missing_mask), self3, w3))))))"

definition complete ::
  "('m, 'g) env \<Rightarrow> cell array2 \<Rightarrow> mice \<Rightarrow> ('m, 'g) world
    \<Rightarrow> (error + cell array2) \<times> mice \<times> ('m, 'g) world" where
  "complete E X self w =
     (let self1 = self\<lparr>fitted_models :=
            Some (replicate (nat (n_burn_in self + n_imputations self))
                    (replicate (n_cols X) (model self)))\<rparr>
      in case multiple_imputations E X self1 w of
           (Inl e, self2, w2) \<Rightarrow> (Inl e, self2, w2)
         | (Inr (imputed_arrays, missing_mask), self2, w2) \<Rightarrow>
             let average_imputated_values = mean_axis0 imputed_arrays in
             (case put_positions X (where_true missing_mask) average_imputated_values of
                Inl e \<Rightarrow> (Inl e, self2, w2)
              | Inr X_completed \<Rightarrow> (Inr X_completed, self2, w2)))"

section \<open>Construction\<close>

text \<open>\<open>__init__\<close> stores its arguments, clears the three fields of a fitted object and,
  when a seed is given, seeds the process-wide generator.\<close>

definition construct :: "('m, 'g) env \<Rightarrow> mice \<Rightarrow> ('m, 'g) world \<Rightarrow> mice \<times> ('m, 'g) world" where
  "construct E args w =
     (args\<lparr>fitted_models := None, visit_indices := None, column_init_values := None\<rparr>,
      (case seed args of None \<Rightarrow> w | Some s \<Rightarrow> w\<lparr>rng := random_seed E s\<rparr>))"

section \<open>Completing one row with the stored models\<close>

definition where_true1 :: "bool list \<Rightarrow> nat list" where
  "where_true1 bs = filter (\<lambda>i. bs ! i) [0..<length bs]"

definition assign1 :: "'a list \<Rightarrow> (nat \<times> 'a) list \<Rightarrow> 'a list" where
  "assign1 x ivs = fold (\<lambda>iv y. y[fst iv := snd iv]) ivs x"

definition put_mask1 :: "'a list \<Rightarrow> bool list \<Rightarrow> 'a nd \<Rightarrow> error + 'a list" where
  "put_mask1 x bs rhs =
     (let is = where_true1 bs in
      case rhs of
        Scalar v \<Rightarrow> Inr (assign1 x (map (\<lambda>i. (i, v)) is))
      | Vector vs \<Rightarrow>
          if length vs = length is then Inr (assign1 x (zip is vs))
          else if length vs = 1 then Inr (assign1 x (map (\<lambda>i. (i, hd vs)) is))
          else Inl (ValueError ''shape mismatch: value array could not be broadcast''))"

text \<open>\<open>a.shape[1]\<close> of the array \<open>np.array\<close> builds from a list of lists; an empty
  list gives a one-dimensional array.\<close>

definition shape1 :: "'a array2 \<Rightarrow> error + nat" where
  "shape1 A = (case A of [] \<Rightarrow> Inl (IndexError ''tuple index out of range'') | r # _ \<Rightarrow> Inr (length r))"

fun row_init_loop :: "bool list \<Rightarrow> cell list \<Rightarrow> nat list \<Rightarrow> cell list \<Rightarrow> error + cell list" where
  "row_init_loop missing_mask civ [] X_filled = Inr X_filled"
| "row_init_loop missing_mask civ (col_idx # rest) X_filled =
     (if \<not> col_idx < length missing_mask then
        Inl (IndexError ''index is out of bounds for axis 0'')
      else if missing_mask ! col_idx then
        (if col_idx < length civ then
           row_init_loop missing_mask civ rest (X_filled[col_idx := civ ! col_idx])
         else Inl (IndexError ''index is out of bounds for axis 0''))
      else row_init_loop missing_mask civ rest X_filled)"

definition row_impute_column ::
  "('m, 'g) env \<Rightarrow> mice \<Rightarrow> addr array2 \<Rightarrow> bool list \<Rightarrow> nat \<Rightarrow> nat \<Rightarrow> cell list \<Rightarrow> ('m, 'g) world
    \<Rightarrow> (error + cell list) \<times> ('m, 'g) world" where
  "row_impute_column E self fm missing_mask m col_idx X_filled w =
     (if \<not> col_idx < length missing_mask then
        (Inl (IndexError ''index is out of bounds for axis 0''), w)
      else if missing_mask ! col_idx then
        let nc = length X_filled;
            ordered_column_indices = [0..<nc];
            other_column_indices =
              take col_idx ordered_column_indices @ drop (col_idx + 1) ordered_column_indices
        in (case take_indices X_filled other_column_indices of
              Inl e \<Rightarrow> (Inl e, w)
            | Inr X_other_cols \<Rightarrow>
                if \<not> (m < length fm \<and> col_idx < length (fm ! m)) then
                  (Inl (IndexError ''index is out of bounds''), w)
                else
                  let brr = fm ! m ! col_idx;
                      X_other_cols_missing = [X_other_cols]
                  in (case predict_dist E (heap w brr) X_other_cols_missing of
                        Inl e \<Rightarrow> (Inl e, w)
                      | Inr (mus, sigmas_squared) \<Rightarrow>
                          (case (mus, map np_sqrt sigmas_squared) of
                             (mu # _, sigma # _) \<Rightarrow>
                               (case random_normal E mu sigma (rng w) of
                                  (Inl e, g) \<Rightarrow> (Inl e, w\<lparr>rng := g\<rparr>)
                                | (Inr imputed_value, g) \<Rightarrow>
                                    (Inr (X_filled[col_idx := clip_value self imputed_value]),
                                     w\<lparr>rng := g\<rparr>))
                           | _ \<Rightarrow> (Inl (IndexError ''index 0 is out of bounds for axis 0''), w))))
      else (Inr X_filled, w))"

fun row_round_loop ::
  "('m, 'g) env \<Rightarrow> mice \<Rightarrow> addr array2 \<Rightarrow> bool list \<Rightarrow> nat \<Rightarrow> nat list \<Rightarrow> cell list
    \<Rightarrow> ('m, 'g) world \<Rightarrow> (error + cell list) \<times> ('m, 'g) world" where
  "row_round_loop E self fm missing_mask m [] X_filled w = (Inr X_filled, w)"
| "row_round_loop E self fm missing_mask m (col_idx # rest) X_filled w =
     (case row_impute_column E self fm missing_mask m col_idx X_filled w of
        (Inl e, w') \<Rightarrow> (Inl e, w')
      | (Inr X', w') \<Rightarrow> row_round_loop E self fm missing_mask m rest X' w')"

fun row_rounds_loop ::
  "('m, 'g) env \<Rightarrow> mice \<Rightarrow> addr array2 \<Rightarrow> bool list \<Rightarrow> nat list \<Rightarrow> nat list \<Rightarrow> cell list
    \<Rightarrow> cell list list \<Rightarrow> ('m, 'g) world \<Rightarrow> (error + cell list list) \<times> ('m, 'g) world" where
  "row_rounds_loop E self fm missing_mask visit_idxs [] X_filled results_list w =
     (Inr results_list, w)"
| "row_rounds_loop E self fm missing_mask visit_idxs (m # ms) X_filled results_list w =
     (case row_round_loop E self fm missing_mask m visit_idxs X_filled w of
        (Inl e, w') \<Rightarrow> (Inl e, w')
      | (Inr X', w') \<Rightarrow>
          row_rounds_loop E self fm missing_mask visit_idxs ms X'
            (if int m \<ge> n_burn_in self then results_list @ [compress missing_mask X']
             else results_list) w')"

definition complete_row ::
  "('m, 'g) env \<Rightarrow> ndarray \<Rightarrow> addr array2 option \<Rightarrow> int option \<Rightarrow> mice \<Rightarrow> ('m, 'g) world
    \<Rightarrow> (error + cell list) \<times> ('m, 'g) world" where
  "complete_row E X fitted_models_arg seed_arg self w =
     (case (case fitted_models_arg of None \<Rightarrow> fitted_models self | Some a \<Rightarrow> Some a) of
        None \<Rightarrow> (Inl (Exception ''No saved fitted models!''), w)
      | Some fm \<Rightarrow>
          (case X of
             Array2 _ \<Rightarrow> (Inl (Exception ''Input array is not row-like!''), w)
           | Array1 x \<Rightarrow>
               (case fitted_models self of
                  None \<Rightarrow> (Inl (AttributeError ''NoneType object has no attribute shape''), w)
                | Some own \<Rightarrow>
                    (case shape1 own of
                       Inl e \<Rightarrow> (Inl e, w)
                     | Inr width \<Rightarrow>
                         if length x \<noteq> width then
                           (Inl (Exception ''Input array has incorrect length!''), w)
                         else if impute_type self \<noteq> ''col'' then
                           (Inl (Exception ''Rows can only be completed if impute_type is col!''), w)
                         else
                           let missing_mask = isnan1 x; n_missing = count_true missing_mask in
                           if n_missing = 0 then (Inr x, w)
                           else
                             (case visit_indices self of
                                None \<Rightarrow> (Inl (Exception ''No saved visit indices!''), w)
                              | Some visit_idxs \<Rightarrow>
                                  (case column_init_values self of
                                     None \<Rightarrow> (Inl (Exception ''No saved initial column values!''), w)
                                   | Some civ \<Rightarrow>
                                       (case row_init_loop missing_mask civ visit_idxs x of
                                          Inl e \<Rightarrow> (Inl e, w)
                                        | Inr X_filled \<Rightarrow>
                                            let seed1 = (case seed_arg of None \<Rightarrow> seed self
                                                         | Some s \<Rightarrow> Some s);
                                                w1 = (case seed1 of None \<Rightarrow> w
                                                      | Some s \<Rightarrow> w\<lparr>rng := random_seed E s\<rparr>)
                                            in (case row_rounds_loop E self fm missing_mask visit_idxs
                                                      [0..<nat (n_burn_in self + n_imputations self)]
                                                      X_filled [] w1 of
                                                  (Inl e, w2) \<Rightarrow> (Inl e, w2)
                                                | (Inr results_list, w2) \<Rightarrow>
                                                    (put_mask1 x missing_mask
                                                       (mean_axis0 results_list), w2)))))))))"

section \<open>Observing a run\<close>

text \<open>
  The working matrix \<open>X_filled\<close> is local to a call. To speak about it, the run of
  \<open>complete\<close> is retraced: \<open>initial_fill\<close> is the state after \<open>initialize\<close>,
  \<open>round_matrices\<close> lists \<open>X_filled\<close> as it stands after each round.
\<close>

fun rounds_trace ::
  "('m, 'g) env \<Rightarrow> mask \<Rightarrow> mask \<Rightarrow> nat list \<Rightarrow> nat list \<Rightarrow> cell array2 \<Rightarrow> mice
    \<Rightarrow> ('m, 'g) world \<Rightarrow> cell array2 list" where
  "rounds_trace E mm om visit_idxs [] X_filled self w = []"
| "rounds_trace E mm om visit_idxs (m # ms) X_filled self w =
     (case perform_imputation_round E X_filled mm om visit_idxs (Some m) self w of
        (Inl e, self', w') \<Rightarrow> []
      | (Inr X', self', w') \<Rightarrow> X' # rounds_trace E mm om visit_idxs ms X' self' w')"

definition initial_fill ::
  "('m, 'g) env \<Rightarrow> cell array2 \<Rightarrow> mice \<Rightarrow> ('m, 'g) world
    \<Rightarrow> (nat list \<times> cell array2 \<times> mice \<times> ('m, 'g) world) option" where
  "initial_fill E X self w =
     (let self1 = self\<lparr>fitted_models :=
            Some (replicate (nat (n_burn_in self + n_imputations self))
                    (replicate (n_cols X) (model self)))\<rparr>;
          missing_mask = isnan X
      in case check_input E X of
           Some e \<Rightarrow> None
         | None \<Rightarrow>
             (case check_missing_value_mask E missing_mask of
                Some e \<Rightarrow> None
              | None \<Rightarrow>
                  (case get_visit_indices E self1 missing_mask of
                     Inl e \<Rightarrow> None
                   | Inr visit_idxs \<Rightarrow>
                       (case initialize E X missing_mask (invert missing_mask) visit_idxs
                               (self1\<lparr>visit_indices := Some visit_idxs\<rparr>) w of
                          (Inl e, self2, w2) \<Rightarrow> None
                        | (Inr X_filled, self2, w2) \<Rightarrow> Some (visit_idxs, X_filled, self2, w2)))))"

definition round_matrices ::
  "('m, 'g) env \<Rightarrow> cell array2 \<Rightarrow> mice \<Rightarrow> ('m, 'g) world \<Rightarrow> cell array2 list" where
  "round_matrices E X self w =
     (case initial_fill E X self w of
        None \<Rightarrow> []
      | Some (visit_idxs, X_filled, self2, w2) \<Rightarrow>
          rounds_trace E (isnan X) (invert (isnan X)) visit_idxs
            [0..<nat (n_burn_in self2 + n_imputations self2)] X_filled self2 w2)"

section \<open>Scenarios\<close>

text \<open>\<open>MICE(**args).complete(X)\<close>: construction followed at once by the call.\<close>

definition run_complete ::
  "('m, 'g) env \<Rightarrow> mice \<Rightarrow> cell array2 \<Rightarrow> ('m, 'g) world
    \<Rightarrow> (error + cell array2) \<times> mice \<times> ('m, 'g) world" where
  "run_complete E args X w = (case construct E args w of (self, w1) \<Rightarrow> complete E X self w1)"


text \<open>\<open>m = MICE(**args); m.complete(X); m.complete_row(row)\<close>: a row completed with
  the models the run has stored.\<close>

definition complete_then_complete_row ::
  "('m, 'g) env \<Rightarrow> mice \<Rightarrow> cell array2 \<Rightarrow> ndarray \<Rightarrow> ('m, 'g) world
    \<Rightarrow> (error + cell list) \<times> ('m, 'g) world" where
  "complete_then_complete_row E args X row w =
     (case run_complete E args X w of
        (r, self, w1) \<Rightarrow> complete_row E row None None self w1)"

text \<open>The stored array holds nothing but references to \<open>self.model\<close>.\<close>

definition aliased :: "mice \<Rightarrow> bool" where
  "aliased self =
     (case fitted_models self of
        None \<Rightarrow> True
      | Some fm \<Rightarrow> list_all (\<lambda>row. list_all (\<lambda>a. a = model self) row) fm)"

text \<open>Positions inside an array, positions a mask selects, and objects that differ
  only in the three fields a run stores.\<close>

definition in_range :: "'a array2 \<Rightarrow> pos \<Rightarrow> bool" where
  "in_range X p = (fst p < length X \<and> snd p < length (X ! fst p))"

definition masked :: "mask \<Rightarrow> pos \<Rightarrow> bool" where
  "masked M p = (fst p < length M \<and> M ! fst p ! snd p)"

definition same_config :: "mice \<Rightarrow> mice \<Rightarrow> bool" where
  "same_config a b =
     (a\<lparr>fitted_models := None, visit_indices := None, column_init_values := None\<rparr> =
      b\<lparr>fitted_models := None, visit_indices := None, column_init_values := None\<rparr>)"

text \<open>The originally observed values of a column: its entries that are not NaN.\<close>

definition observed_values :: "cell array2 \<Rightarrow> nat \<Rightarrow> cell list" where
  "observed_values X c = filter (\<lambda>v. v \<noteq> None) (column X c)"



section \<open>A reference instantiation of the collaborators\<close>

text \<open>
  A small deterministic instance on which the model can be run: the generator is a
  counter, a fitted model remembers its training data, predicts the mean of the targets
  plus the sum of the predictors and reports variance one.
\<close>

definition default_mice :: mice where
  "default_mice =
     \<lparr>visit_sequence = ''monotone'', n_imputations = 100, n_burn_in = 10, n_pmm_neighbors = 5,
      impute_type = ''col'', model = 0, n_nearest_columns = None, fill_method = ''mean'',
      min_value = None, max_value = None, seed = None, fitted_models = None,
      visit_indices = None, column_init_values = None\<rparr>"

text \<open>
  Modelled from the spec: \<open>Solver._check_input\<close> and
  \<open>Solver._check_missing_value_mask\<close> are defined in the base class, outside
  \<open>mice.py\<close>. The spec: non-tabular input and fully-missing rows or columns are
  rejected.
\<close>

definition ref_check_input :: "cell array2 \<Rightarrow> error option" where
  "ref_check_input X = (if is_array2 X then None else Some (ValueError ''Expected 2d matrix''))"

definition ref_check_missing_value_mask :: "mask \<Rightarrow> error option" where
  "ref_check_missing_value_mask M =
     (if list_ex (\<lambda>r. r \<noteq> [] \<and> list_all (\<lambda>b. b) r) M
         \<or> list_ex (\<lambda>j. M \<noteq> [] \<and> list_all (\<lambda>b. b) (column M j)) [0..<n_cols M]
      then Some (ValueError ''Input matrix has a fully missing row or column'')
      else None)"

definition ref_argsort :: "nat list \<Rightarrow> nat list" where
  "ref_argsort xs = sort_key (\<lambda>i. xs ! i) [0..<length xs]"

definition ref_argpartition :: "cell list \<Rightarrow> int \<Rightarrow> error + nat list" where
  "ref_argpartition d k =
     (if - int (length d) \<le> k \<and> k < int (length d) then
        Inr (sort_key (\<lambda>i. the (d ! i)) (filter (\<lambda>i. d ! i \<noteq> None) [0..<length d])
             @ filter (\<lambda>i. d ! i = None) [0..<length d])
      else Inl (ValueError ''kth out of bounds''))"

definition ref_predict ::
  "cell array2 \<times> cell list \<Rightarrow> cell array2 \<Rightarrow> bool \<Rightarrow> nat \<Rightarrow> (error + cell list) \<times> nat" where
  "ref_predict m Xq random_draw g =
     (Inr (map (\<lambda>r. np_add (np_add (np_mean (snd m)) (np_sum r))
                    (Some (if random_draw then real g else 0))) Xq),
      if random_draw then Suc g else g)"

definition ref_predict_dist ::
  "cell array2 \<times> cell list \<Rightarrow> cell array2 \<Rightarrow> error + (cell list \<times> cell list)" where
  "ref_predict_dist m Xq =
     Inr (map (\<lambda>r. np_add (np_mean (snd m)) (np_sum r)) Xq, map (\<lambda>r. Some 1) Xq)"

definition ref_random_normal :: "cell \<Rightarrow> cell \<Rightarrow> nat \<Rightarrow> (error + cell) \<times> nat" where
  "ref_random_normal mu sigma g =
     (Inr (case (mu, sigma) of (Some a, Some b) \<Rightarrow> Some (a + b * real g) | _ \<Rightarrow> None), Suc g)"

definition ref_env :: "(cell array2 \<times> cell list, nat) env" where
  "ref_env =
     \<lparr>check_input = ref_check_input,
      check_missing_value_mask = ref_check_missing_value_mask,
      argsort = ref_argsort,
      argpartition = ref_argpartition,
      corrcoef = (\<lambda>X. replicate (n_cols X) (replicate (n_cols X) (Some 1))),
      random_seed = (\<lambda>s. nat \<bar>s\<bar>),
      randint = (\<lambda>high g. (g mod high, Suc g)),
      choice_weighted = (\<lambda>a k p g. (Inr (take (nat k) (filter (\<lambda>i. p ! i \<noteq> Some 0) a)), Suc g)),
      random_normal = ref_random_normal,
      fit = (\<lambda>m Xo yo. Inr (Xo, yo)),
      predict = ref_predict,
      predict_dist = ref_predict_dist\<rparr>"

definition ref_world :: "(cell array2 \<times> cell list, nat) world" where
  "ref_world = \<lparr>rng = 0, heap = (\<lambda>a. ([], []))\<rparr>"

section \<open>Arrays: reading and writing by position\<close>



lemma length_set2 [simp]: "map length (set2 X p v) = map length X"
  by (cases "fst p < length X") (simp_all add: set2_def map_update list_update_same_conv list_update_beyond)

lemma in_range_cong: "map length X = map length Y \<Longrightarrow> in_range X p = in_range Y p"
  unfolding in_range_def by (metis length_map nth_map)

lemma get2_set2_other: "q \<noteq> p \<Longrightarrow> get2 (set2 X p v) q = get2 X q"
  unfolding get2_def set2_def
  by (cases "fst p < length X"; cases "fst q = fst p") (auto simp: prod_eq_iff list_update_beyond)

lemma get2_set2_same: "in_range X p \<Longrightarrow> get2 (set2 X p v) p = v"
  unfolding get2_def set2_def in_range_def by simp

lemma length_assign [simp]: "map length (assign X pvs) = map length X"
  unfolding assign_def by (induction pvs arbitrary: X) simp_all

lemma assign_Cons: "assign X (pv # pvs) = assign (set2 X (fst pv) (snd pv)) pvs"
  by (simp add: assign_def)

lemma assign_other: "q \<notin> fst ` set pvs \<Longrightarrow> get2 (assign X pvs) q = get2 X q"
proof (induction pvs arbitrary: X)
  case Nil
  then show ?case by (simp add: assign_def)
next
  case (Cons pv pvs)
  then show ?case by (simp add: assign_Cons get2_set2_other)
qed

lemma assign_hit:
  "distinct (map fst pvs) \<Longrightarrow> \<forall>p \<in> fst ` set pvs. in_range X p \<Longrightarrow> k < length pvs
    \<Longrightarrow> get2 (assign X pvs) (fst (pvs ! k)) = snd (pvs ! k)"
proof (induction pvs arbitrary: X k)
  case Nil
  then show ?case by simp
next
  case (Cons pv pvs)
  have rng: "\<forall>p \<in> fst ` set pvs. in_range (set2 X (fst pv) (snd pv)) p"
  proof
    fix p assume "p \<in> fst ` set pvs"
    then have "in_range X p" using Cons.prems(2) by auto
    then show "in_range (set2 X (fst pv) (snd pv)) p"
      using in_range_cong [of "set2 X (fst pv) (snd pv)" X p] by simp
  qed
  show ?case
  proof (cases k)
    case 0
    have "fst pv \<notin> fst ` set pvs" using Cons.prems(1) by auto
    then show ?thesis using 0 Cons.prems(2)
      by (simp add: assign_Cons assign_other get2_set2_same)
  next
    case (Suc k')
    then show ?thesis using Cons.IH [OF _ rng, of k'] Cons.prems
      by (simp add: assign_Cons)
  qed
qed

lemma put_positions_shape:
  "put_positions X ps rhs = Inr X' \<Longrightarrow> map length X' = map length X"
  by (auto simp: put_positions_def split: nd.splits if_splits)

lemma put_positions_other:
  "put_positions X ps rhs = Inr X' \<Longrightarrow> q \<notin> set ps \<Longrightarrow> get2 X' q = get2 X q"
  by (auto simp: put_positions_def image_iff dest!: set_zip_leftD intro!: assign_other split: nd.splits if_splits)


lemma save_fitted_model_config:
  "save_fitted_model self ri c a = Inr self1 \<Longrightarrow> \<exists>fm. self1 = self\<lparr>fitted_models := fm\<rparr>"
  unfolding save_fitted_model_def
  by (cases ri; cases "fitted_models self") (auto split: if_splits intro: exI [of _ "fitted_models self"])

lemma clip_config [simp]: "clip (self\<lparr>fitted_models := fm\<rparr>) vs = clip self vs"
  by (simp add: clip_def clip_value_def)


lemma impute_column_cases:
  assumes "impute_column E mm om ri acm c X self w = (Inr X', self', w')"
  shows "(sum_axis0 mm ! c = 0 \<and> X' = X \<and> self' = self \<and> w' = w) \<or>
         (0 < sum_axis0 mm ! c \<and> c < n_cols mm \<and> (\<exists>fm. self' = self\<lparr>fitted_models := fm\<rparr>) \<and>
          (\<exists>brr Xo g g' vals. imputed_values_for E self' brr Xo (column mm c) (column om c)
               (compress (column om c) (column X c)) g = (Inr vals, g') \<and>
             put_positions X (where_true_col mm c) (Vector (clip self vals)) = Inr X'))"
proof (cases "c < n_cols mm \<and> 0 < sum_axis0 mm ! c")
  case False
  then show ?thesis using assms
    by (auto simp: impute_column_def Let_def split: if_splits)
next
  case True
  from assms True obtain oc g1 where oc: "other_columns E self acm (n_cols X) c (rng w) = (Inr oc, g1)"
    by (auto simp: impute_column_def Let_def split: if_splits prod.splits sum.splits)
  from assms True oc obtain Xo where Xo: "columns X oc = Inr Xo"
    by (auto simp: impute_column_def Let_def split: if_splits prod.splits sum.splits)
  from assms True oc Xo obtain fitted where ft:
    "fit E (heap w (model self)) (compress (column om c) Xo) (compress (column om c) (column X c)) = Inr fitted"
    by (auto simp: impute_column_def Let_def split: if_splits prod.splits sum.splits)
  from assms True oc Xo ft obtain self1 where s1: "save_fitted_model self ri c (model self) = Inr self1"
    by (auto simp: impute_column_def Let_def split: if_splits prod.splits sum.splits)
  from save_fitted_model_config [OF s1] obtain fm where fm: "self1 = self\<lparr>fitted_models := fm\<rparr>" by blast
  from assms True oc Xo ft s1 obtain vals g2 where iv:
    "imputed_values_for E self1 fitted Xo (column mm c) (column om c)
        (compress (column om c) (column X c)) g1 = (Inr vals, g2)"
    by (auto simp: impute_column_def Let_def split: if_splits prod.splits sum.splits)
  from assms True oc Xo ft s1 iv have put: "put_positions X (where_true_col mm c) (Vector (clip self1 vals)) = Inr X'"
    and eq: "self' = self1"
    by (auto simp: impute_column_def Let_def split: if_splits prod.splits sum.splits)
  have put': "put_positions X (where_true_col mm c) (Vector (clip self vals)) = Inr X'"
    using put fm by simp
  have iv': "imputed_values_for E self' fitted Xo (column mm c) (column om c)
        (compress (column om c) (column X c)) g1 = (Inr vals, g2)" using iv eq by simp
  have "\<exists>fm. self' = self\<lparr>fitted_models := fm\<rparr>" using eq fm by blast
  with True iv' put' show ?thesis by blast
qed


lemma same_config_refl [simp]: "same_config a a"
  by (simp add: same_config_def)

lemma same_config_trans: "same_config a b \<Longrightarrow> same_config b c \<Longrightarrow> same_config a c"
  by (simp add: same_config_def)

lemma same_config_upd [simp]:
  "same_config (a\<lparr>fitted_models := fm\<rparr>) b = same_config a b"
  "same_config (a\<lparr>visit_indices := vi\<rparr>) b = same_config a b"
  "same_config (a\<lparr>column_init_values := ci\<rparr>) b = same_config a b"
  "same_config a (b\<lparr>fitted_models := fm\<rparr>) = same_config a b"
  "same_config a (b\<lparr>visit_indices := vi\<rparr>) = same_config a b"
  "same_config a (b\<lparr>column_init_values := ci\<rparr>) = same_config a b"
  by (simp_all add: same_config_def)

lemma same_config_fields:
  assumes "same_config a b"
  shows "n_burn_in a = n_burn_in b" "n_imputations a = n_imputations b"
    "impute_type a = impute_type b" "min_value a = min_value b" "max_value a = max_value b"
    "model a = model b" "visit_sequence a = visit_sequence b" "fill_method a = fill_method b"
    "seed a = seed b" "n_pmm_neighbors a = n_pmm_neighbors b"
    "n_nearest_columns a = n_nearest_columns b"
proof -
  let ?f = "\<lambda>x::mice. x\<lparr>fitted_models := None, visit_indices := None, column_init_values := None\<rparr>"
  have e: "?f a = ?f b" using assms by (simp add: same_config_def)
  show "n_burn_in a = n_burn_in b" using arg_cong [OF e, of n_burn_in] by simp
  show "n_imputations a = n_imputations b" using arg_cong [OF e, of n_imputations] by simp
  show "impute_type a = impute_type b" using arg_cong [OF e, of impute_type] by simp
  show "min_value a = min_value b" using arg_cong [OF e, of min_value] by simp
  show "max_value a = max_value b" using arg_cong [OF e, of max_value] by simp
  show "model a = model b" using arg_cong [OF e, of model] by simp
  show "visit_sequence a = visit_sequence b" using arg_cong [OF e, of visit_sequence] by simp
  show "fill_method a = fill_method b" using arg_cong [OF e, of fill_method] by simp
  show "seed a = seed b" using arg_cong [OF e, of seed] by simp
  show "n_pmm_neighbors a = n_pmm_neighbors b" using arg_cong [OF e, of n_pmm_neighbors] by simp
  show "n_nearest_columns a = n_nearest_columns b" using arg_cong [OF e, of n_nearest_columns] by simp
qed

lemma where_true_col_masked: "q \<in> set (where_true_col M c) \<Longrightarrow> masked M q \<and> snd q = c"
  by (auto simp: where_true_col_def masked_def)

lemma impute_column_frame:
  assumes "impute_column E mm om ri acm c X self w = (Inr X', self', w')"
  shows "map length X' = map length X" "same_config self' self"
    "\<not> (masked mm q \<and> snd q = c) \<Longrightarrow> get2 X' q = get2 X q"
  using impute_column_cases [OF assms] where_true_col_masked [of q mm c]
  by (auto dest: put_positions_shape put_positions_other)

lemma round_loop_frame:
  assumes "round_loop E mm om ri acm vis X self w = (Inr X', self', w')"
  shows "map length X' = map length X \<and> same_config self' self \<and>
    (\<not> (masked mm q \<and> snd q \<in> set vis) \<longrightarrow> get2 X' q = get2 X q)"
  using assms
proof (induction vis arbitrary: X self w)
  case Nil
  then show ?case by simp
next
  case (Cons c vis)
  from Cons.prems obtain X1 s1 w1 where
    st: "impute_column E mm om ri acm c X self w = (Inr X1, s1, w1)" and
    rest: "round_loop E mm om ri acm vis X1 s1 w1 = (Inr X', self', w')"
    by (auto split: prod.splits sum.splits)
  from Cons.IH [OF rest] impute_column_frame(1,2) [OF st] impute_column_frame(3) [OF st, of q]
  show ?case by (auto intro: same_config_trans)
qed

lemma perform_imputation_round_frame:
  assumes "perform_imputation_round E X mm om vis ri self w = (Inr X', self', w')"
  shows "map length X' = map length X" "same_config self' self"
    "\<not> masked mm q \<Longrightarrow> get2 X' q = get2 X q"
  using assms round_loop_frame [of E mm om ri _ vis X self w X' self' w' q]
  by (auto simp: perform_imputation_round_def Let_def)

lemma initialize_column_frame:
  assumes "initialize_column E mm om c X self w = (Inr X', self', w')"
  shows "map length X' = map length X" "same_config self' self"
    "\<not> masked mm q \<Longrightarrow> get2 X' q = get2 X q"
  using assms where_true_col_masked [of q mm c]
  by (auto simp: initialize_column_def Let_def split: if_splits prod.splits sum.splits
        dest: put_positions_shape put_positions_other)

lemma initialize_loop_frame:
  assumes "initialize_loop E mm om vis X self w = (Inr X', self', w')"
  shows "map length X' = map length X \<and> same_config self' self \<and>
    (\<not> masked mm q \<longrightarrow> get2 X' q = get2 X q)"
  using assms
proof (induction vis arbitrary: X self w)
  case Nil
  then show ?case by simp
next
  case (Cons c vis)
  from Cons.prems obtain X1 s1 w1 where
    st: "initialize_column E mm om c X self w = (Inr X1, s1, w1)" and
    rest: "initialize_loop E mm om vis X1 s1 w1 = (Inr X', self', w')"
    by (auto split: prod.splits sum.splits)
  from Cons.IH [OF rest] initialize_column_frame(1,2) [OF st]
    initialize_column_frame(3) [OF st, of q]
  show ?case by (auto intro: same_config_trans)
qed

lemma initialize_frame:
  assumes "initialize E X mm om vis self w = (Inr X', self', w')"
  shows "map length X' = map length X" "same_config self' self"
    "\<not> masked mm q \<Longrightarrow> get2 X' q = get2 X q"
  using initialize_loop_frame [of E mm om vis X
      "self\<lparr>column_init_values := Some (replicate (n_cols X) (Some 0))\<rparr>" w X' self' w' q] assms
  by (auto simp: initialize_def)


section \<open>The visit order\<close>


lemma sum_axis0_nth: "j < n_cols M \<Longrightarrow> sum_axis0 M ! j = count_true (column M j)"
  by (simp add: sum_axis0_def)

lemma length_sum_axis0 [simp]: "length (sum_axis0 M) = n_cols M"
  by (simp add: sum_axis0_def)

lemma ref_argsort_ok: "argsort_ok ref_argsort"
  unfolding argsort_ok_def ref_argsort_def
proof (intro allI conjI)
  fix xs :: "nat list"
  show "distinct (sort_key (\<lambda>i. xs ! i) [0..<length xs])" by simp
  show "set (sort_key (\<lambda>i. xs ! i) [0..<length xs]) = {0..<length xs}" by simp
  show "sorted (map (\<lambda>i. xs ! i) (sort_key (\<lambda>i. xs ! i) [0..<length xs]))"
    by (rule sorted_sort_key)
qed

lemma argsort_counts:
  assumes "argsort_ok f"
  shows "distinct (f (sum_axis0 M))" "set (f (sum_axis0 M)) = {0..<n_cols M}"
    "sorted (map (\<lambda>j. count_true (column M j)) (f (sum_axis0 M)))"
proof -
  from assms have d: "distinct (f (sum_axis0 M))" and s: "set (f (sum_axis0 M)) = {0..<n_cols M}"
    and o: "sorted (map (\<lambda>i. sum_axis0 M ! i) (f (sum_axis0 M)))"
    unfolding argsort_ok_def by (simp_all add: argsort_ok_def)
  show "distinct (f (sum_axis0 M))" by (rule d)
  show "set (f (sum_axis0 M)) = {0..<n_cols M}" by (rule s)
  have "map (\<lambda>i. sum_axis0 M ! i) (f (sum_axis0 M)) =
        map (\<lambda>j. count_true (column M j)) (f (sum_axis0 M))"
    using s by (intro map_cong) (auto simp: sum_axis0_nth)
  with o show "sorted (map (\<lambda>j. count_true (column M j)) (f (sum_axis0 M)))" by simp
qed




text \<open>
  Claim C7. For every missing-mask and every recognised strategy, \<open>get_visit_indices\<close>
  returns a permutation of the column indices \<open>0..n_cols-1\<close>: roman is the ascending
  order, arabic the descending one, monotone orders the columns by descending count of
  missing entries and revmonotone by ascending count. \<open>np.argsort\<close> is assumed to
  do what numpy documents.
\<close>

theorem get_visit_indices_permutation:
  assumes "argsort_ok (argsort E)"
    and "visit_sequence self \<in> {''roman'', ''arabic'', ''monotone'', ''revmonotone''}"
  shows "\<exists>vs. get_visit_indices E self M = Inr vs \<and> distinct vs \<and> set vs = {0..<n_cols M} \<and>
    (visit_sequence self = ''roman'' \<longrightarrow> vs = [0..<n_cols M]) \<and>
    (visit_sequence self = ''arabic'' \<longrightarrow> vs = rev [0..<n_cols M]) \<and>
    (visit_sequence self = ''monotone'' \<longrightarrow>
       sorted (rev (map (\<lambda>j. count_true (column M j)) vs))) \<and>
    (visit_sequence self = ''revmonotone'' \<longrightarrow>
       sorted (map (\<lambda>j. count_true (column M j)) vs))"
proof -
  note a = argsort_counts [OF assms(1), of M]
  consider "visit_sequence self = ''roman''" | "visit_sequence self = ''arabic''"
    | "visit_sequence self = ''monotone''" | "visit_sequence self = ''revmonotone''"
    using assms(2) by auto
  then show ?thesis
  proof cases
    case 1
    then show ?thesis by (simp add: get_visit_indices_def)
  next
    case 2
    then show ?thesis by (simp add: get_visit_indices_def)
  next
    case 3
    then show ?thesis using a by (simp add: get_visit_indices_def rev_map [symmetric])
  next
    case 4
    then show ?thesis using a by (simp add: get_visit_indices_def)
  qed
qed

theorem get_visit_indices_permutation_witness:
  "argsort_ok (argsort ref_env) \<and>
   get_visit_indices ref_env default_mice [[True, False, True], [True, False, False]] = Inr [0, 2, 1] \<and>
   distinct [0, 2, 1 :: nat] \<and> set [0, 2, 1] = {0..<n_cols [[True, False, True], [True, False, False]]} \<and>
   sorted (rev (map (\<lambda>j. count_true (column [[True, False, True], [True, False, False]] j)) [0, 2, 1]))"
proof -
  have ok: "argsort_ok (argsort ref_env)" by (simp add: ref_env_def ref_argsort_ok)
  have vs: "visit_sequence default_mice \<in> {''roman'', ''arabic'', ''monotone'', ''revmonotone''}"
    by (simp add: default_mice_def)
  have ev: "get_visit_indices ref_env default_mice [[True, False, True], [True, False, False]] = Inr [0, 2, 1]"
    by (simp add: get_visit_indices_def ref_env_def default_mice_def ref_argsort_def sum_axis0_def
          n_cols_def column_def count_true_def eval_nat_numeral)
  from get_visit_indices_permutation [OF ok vs, of "[[True, False, True], [True, False, False]]"] ev ok
  show ?thesis by (simp add: default_mice_def)
qed

section \<open>The run of complete and its trace\<close>

lemma distinct_concat_tagged:
  assumes "\<And>i. distinct (g i)" and "\<And>i x. x \<in> set (g i) \<Longrightarrow> fst x = i" and "distinct is"
  shows "distinct (concat (map g is))"
  using assms(3)
proof (induction "is")
  case Nil
  then show ?case by simp
next
  case (Cons i "is")
  have "set (g i) \<inter> (\<Union>k \<in> set is. set (g k)) = {}"
  proof (rule ccontr)
    assume "set (g i) \<inter> (\<Union>k \<in> set is. set (g k)) \<noteq> {}"
    then obtain x k where "x \<in> set (g i)" "k \<in> set is" "x \<in> set (g k)" by auto
    with assms(2) have "k = i" by metis
    with \<open>k \<in> set is\<close> Cons.prems show False by simp
  qed
  with Cons assms(1) show ?case by simp
qed

lemma distinct_where_true: "distinct (where_true M)"
  unfolding where_true_def
  by (rule distinct_concat_tagged) (auto simp: distinct_map inj_on_def)

lemma where_true_set: "p \<in> set (where_true M) \<longleftrightarrow> in_range M p \<and> M ! fst p ! snd p"
  by (cases p) (auto simp: where_true_def in_range_def)

lemma in_range_isnan [simp]: "in_range (isnan X) p = in_range X p"
  by (auto simp: in_range_def isnan_def)

lemma isnan_nth: "in_range X p \<Longrightarrow> isnan X ! fst p ! snd p \<longleftrightarrow> get2 X p = None"
  by (simp add: in_range_def isnan_def get2_def)

lemma where_true_isnan: "p \<in> set (where_true (isnan X)) \<longleftrightarrow> in_range X p \<and> get2 X p = None"
  using isnan_nth [of X p] by (auto simp: where_true_set)

lemma masked_isnan: "in_range X p \<Longrightarrow> masked (isnan X) p \<longleftrightarrow> get2 X p = None"
  using isnan_nth [of X p] by (simp add: masked_def in_range_def isnan_def)

lemma rounds_trace_frame:
  "Xm \<in> set (rounds_trace E mm om vis ms X self w) \<Longrightarrow>
     map length Xm = map length X \<and> (\<not> masked mm q \<longrightarrow> get2 Xm q = get2 X q)"
proof (induction ms arbitrary: X self w)
  case Nil
  then show ?case by simp
next
  case (Cons m ms)
  show ?case
  proof (cases "perform_imputation_round E X mm om vis (Some m) self w")
    case (fields r s1 w1)
    show ?thesis
    proof (cases r)
      case (Inl e)
      with fields Cons.prems show ?thesis by simp
    next
      case (Inr X1)
      note st = fields [unfolded Inr]
      from Cons.prems st have "Xm = X1 \<or> Xm \<in> set (rounds_trace E mm om vis ms X1 s1 w1)" by simp
      then show ?thesis
        using Cons.IH [of X1 s1 w1] perform_imputation_round_frame(1) [OF st]
          perform_imputation_round_frame(3) [OF st, of q] by auto
    qed
  qed
qed

lemma rounds_loop_trace:
  assumes "rounds_loop E mm om vis ms X rs self w = (Inr rs', self', w')"
  shows "length (rounds_trace E mm om vis ms X self w) = length ms \<and> same_config self' self \<and>
    rs' = rs @ map (\<lambda>Xm. take_positions Xm (where_true mm))
                 (map snd (filter (\<lambda>mx. n_burn_in self \<le> int (fst mx))
                    (zip ms (rounds_trace E mm om vis ms X self w))))"
  using assms
proof (induction ms arbitrary: X rs self w)
  case Nil
  then show ?case by simp
next
  case (Cons m ms)
  from Cons.prems obtain X1 s1 w1 where
    st: "perform_imputation_round E X mm om vis (Some m) self w = (Inr X1, s1, w1)" and
    rest: "rounds_loop E mm om vis ms X1
             (if int m \<ge> n_burn_in s1 then rs @ [take_positions X1 (where_true mm)] else rs)
             s1 w1 = (Inr rs', self', w')"
    by (auto split: prod.splits sum.splits)
  note sc = perform_imputation_round_frame(2) [OF st]
  have nb: "n_burn_in s1 = n_burn_in self" using same_config_fields(1) [OF sc] .
  from Cons.IH [OF rest] sc st nb show ?case
    by (auto intro: same_config_trans)
qed

lemma filter_index_drop:
  "map snd (filter (\<lambda>mx. k \<le> int (fst mx)) (zip [a..<a + length tr] tr)) = drop (nat k - a) tr"
proof (induction tr arbitrary: a)
  case Nil
  then show ?case by simp
next
  case (Cons x tr)
  have "a < Suc a + length tr" by simp
  then have "[a..<Suc a + length tr] = a # [Suc a..<Suc a + length tr]" by (rule upt_conv_Cons)
  moreover have "a + length (x # tr) = Suc a + length tr" by simp
  ultimately have u: "[a..<a + length (x # tr)] = a # [Suc a..<Suc a + length tr]"
    by (simp only:)
  show ?case
  proof (cases "k \<le> int a")
    case True
    then have "nat k - a = 0" "nat k - Suc a = 0" by simp_all
    with True Cons.IH [of "Suc a"] show ?thesis unfolding u by simp
  next
    case False
    then have "nat k - a = Suc (nat k - Suc a)" by linarith
    with False Cons.IH [of "Suc a"] show ?thesis unfolding u by simp
  qed
qed

lemma complete_Inr:
  assumes "complete E X self w = (Inr out, self', w')"
  shows "\<exists>vis X0 s2 w2 rs. initial_fill E X self w = Some (vis, X0, s2, w2) \<and>
     rounds_loop E (isnan X) (invert (isnan X)) vis [0..<nat (n_burn_in s2 + n_imputations s2)]
        X0 [] s2 w2 = (Inr rs, self', w') \<and>
     put_positions X (where_true (isnan X)) (mean_axis0 rs) = Inr out"
  using assms
  by (auto simp: complete_def multiple_imputations_def initial_fill_def Let_def
        split: option.splits sum.splits prod.splits)

lemma initial_fill_frame:
  assumes "initial_fill E X self w = Some (vis, X0, s2, w2)"
  shows "map length X0 = map length X" "same_config s2 self"
    "\<not> masked (isnan X) q \<Longrightarrow> get2 X0 q = get2 X q"
    "get_visit_indices E self (isnan X) = Inr vis"
proof -
  let ?s1 = "self\<lparr>fitted_models := Some (replicate (nat (n_burn_in self + n_imputations self))
                    (replicate (n_cols X) (model self)))\<rparr>"
  from assms have gv: "get_visit_indices E ?s1 (isnan X) = Inr vis"
    and ini: "initialize E X (isnan X) (invert (isnan X)) vis (?s1\<lparr>visit_indices := Some vis\<rparr>) w
        = (Inr X0, s2, w2)"
    by (auto simp: initial_fill_def Let_def split: option.splits sum.splits prod.splits)
  show "map length X0 = map length X" using initialize_frame(1) [OF ini] .
  show "same_config s2 self" using initialize_frame(2) [OF ini] by simp
  show "\<not> masked (isnan X) q \<Longrightarrow> get2 X0 q = get2 X q" using initialize_frame(3) [OF ini] .
  show "get_visit_indices E self (isnan X) = Inr vis"
    using gv by (simp add: get_visit_indices_def Let_def cong: if_cong)
qed

lemma complete_run:
  assumes "complete E X self w = (Inr out, self', w')"
  shows "length (round_matrices E X self w) = nat (n_burn_in self + n_imputations self)"
    "put_positions X (where_true (isnan X))
       (mean_axis0 (map (\<lambda>Xm. take_positions Xm (where_true (isnan X)))
          (drop (nat (n_burn_in self)) (round_matrices E X self w)))) = Inr out"
    "same_config self' self"
proof -
  from complete_Inr [OF assms] obtain vis X0 s2 w2 rs where
    ini: "initial_fill E X self w = Some (vis, X0, s2, w2)" and
    lp: "rounds_loop E (isnan X) (invert (isnan X)) vis [0..<nat (n_burn_in s2 + n_imputations s2)]
        X0 [] s2 w2 = (Inr rs, self', w')" and
    put: "put_positions X (where_true (isnan X)) (mean_axis0 rs) = Inr out" by blast
  let ?n = "nat (n_burn_in s2 + n_imputations s2)"
  let ?tr = "rounds_trace E (isnan X) (invert (isnan X)) vis [0..<?n] X0 s2 w2"
  have tr: "round_matrices E X self w = ?tr" using ini by (simp add: round_matrices_def)
  note sc = initial_fill_frame(2) [OF ini]
  note f = same_config_fields(1,2) [OF sc]
  note t = rounds_loop_trace [OF lp]
  from t have len: "length ?tr = ?n" and sc': "same_config self' s2" by simp_all
  from t have rs: "rs = map (\<lambda>Xm. take_positions Xm (where_true (isnan X)))
                 (map snd (filter (\<lambda>mx. n_burn_in s2 \<le> int (fst mx)) (zip [0..<?n] ?tr)))"
    by (simp only: append_Nil simp_thms)
  have eq: "map snd (filter (\<lambda>mx. n_burn_in s2 \<le> int (fst mx)) (zip [0..<?n] ?tr))
        = drop (nat (n_burn_in s2)) ?tr"
    using filter_index_drop [of "n_burn_in s2" 0 ?tr] len by simp
  have rs': "rs = map (\<lambda>Xm. take_positions Xm (where_true (isnan X)))
       (drop (nat (n_burn_in s2)) ?tr)" using rs eq by (simp only:)
  show "length (round_matrices E X self w) = nat (n_burn_in self + n_imputations self)"
    using len tr f by simp
  show "put_positions X (where_true (isnan X))
       (mean_axis0 (map (\<lambda>Xm. take_positions Xm (where_true (isnan X)))
          (drop (nat (n_burn_in self)) (round_matrices E X self w)))) = Inr out"
    using put rs' tr f by simp
  show "same_config self' self" using sc sc' by (rule same_config_trans [rotated])
qed

lemmas array_defs = n_rows_def n_cols_def is_array2_def isnan_def isnan1_def invert_def column_def
  columns_def compress_def take_indices_def count_true_def sum_axis0_def get2_def set2_def
  where_true_def where_true_col_def take_positions_def assign_def put_positions_def
  np_mean_def np_median_def np_sqrt_def np_abs_def np_sub_def np_add_def np_div_def np_sum_def
  mean_axis0_def where_true1_def assign1_def put_mask1_def shape1_def slice_to_def

lemmas mice_defs = get_visit_indices_def clip_value_def clip_def random_choice1_def
  fill_values_def as_element_def initialize_column_def initialize_def other_columns_def
  impute_pmm_def impute_col_def imputed_values_for_def save_fitted_model_def impute_column_def
  exceeds_nearest_columns_def perform_imputation_round_def multiple_imputations_def
  complete_def construct_def row_impute_column_def complete_row_def
  initial_fill_def round_matrices_def

lemmas ref_defs = default_mice_def ref_check_input_def ref_check_missing_value_mask_def
  ref_argsort_def ref_argpartition_def ref_predict_def ref_predict_dist_def
  ref_random_normal_def ref_env_def ref_world_def

lemma where_true_index:
  assumes "in_range X p" "get2 X p = None"
  obtains k where "k < length (where_true (isnan X))" "where_true (isnan X) ! k = p"
  using assms where_true_isnan [of p X] by (auto simp: in_set_conv_nth)

lemma put_positions_hit:
  assumes "put_positions X ps rhs = Inr X'" "distinct ps" "\<forall>p \<in> set ps. in_range X p" "k < length ps"
  shows "get2 X' (ps ! k) =
     (case rhs of Scalar v \<Rightarrow> v | Vector vs \<Rightarrow> if length vs = length ps then vs ! k else hd vs)"
proof (cases rhs)
  case (Scalar v)
  let ?pvs = "map (\<lambda>p. (p, v)) ps"
  have "get2 (assign X ?pvs) (fst (?pvs ! k)) = snd (?pvs ! k)"
    using assms(2-4) by (intro assign_hit) (simp_all add: comp_def)
  with assms Scalar show ?thesis by (simp add: put_positions_def)
next
  case (Vector vs)
  show ?thesis
  proof (cases "length vs = length ps")
    case True
    have "get2 (assign X (zip ps vs)) (fst (zip ps vs ! k)) = snd (zip ps vs ! k)"
      using assms(2-4) True by (intro assign_hit) (auto dest: set_zip_leftD)
    with assms Vector True show ?thesis by (simp add: put_positions_def)
  next
    case False
    let ?pvs = "map (\<lambda>p. (p, hd vs)) ps"
    have "get2 (assign X ?pvs) (fst (?pvs ! k)) = snd (?pvs ! k)"
      using assms(2-4) by (intro assign_hit) (simp_all add: comp_def)
    with assms Vector False show ?thesis by (simp add: put_positions_def split: if_splits)
  qed
qed

lemma mean_axis0_samples:
  assumes "k < length ps"
  shows "(case mean_axis0 (map (\<lambda>Xm. take_positions Xm ps) S) of
            Scalar v \<Rightarrow> v
          | Vector vs \<Rightarrow> if length vs = length ps then vs ! k else hd vs)
         = np_mean (map (\<lambda>Xm. get2 Xm (ps ! k)) S)"
proof (cases S)
  case Nil
  then show ?thesis by (simp add: mean_axis0_def np_mean_def)
next
  case (Cons X0 S')
  then show ?thesis using assms
    by (simp add: mean_axis0_def take_positions_def comp_def)
qed

text \<open>
  Claim C1. For every completed run, the matrix returned by \<open>complete\<close> has the
  shape of the input, holds at each missing position (NaN in the input) the arithmetic
  mean of the values that position had in the working matrix after each of the rounds
  from \<open>n_burn_in\<close> on, and equals the input at every observed position. With
  non-negative \<open>n_burn_in\<close> and \<open>n_imputations\<close> there are exactly
  \<open>n_imputations\<close> such rounds.
\<close>

theorem complete_mean_of_samples:
  assumes "complete E X self w = (Inr out, self', w')"
    and "i < length X" and "j < length (X ! i)"
  shows "map length out = map length X \<and>
     get2 out (i, j) =
       (if get2 X (i, j) = None
        then np_mean (map (\<lambda>Xm. get2 Xm (i, j))
               (drop (nat (n_burn_in self)) (round_matrices E X self w)))
        else get2 X (i, j)) \<and>
     (0 \<le> n_burn_in self \<and> 0 \<le> n_imputations self \<longrightarrow>
        length (drop (nat (n_burn_in self)) (round_matrices E X self w)) = nat (n_imputations self))"
proof -
  let ?ps = "where_true (isnan X)"
  let ?S = "drop (nat (n_burn_in self)) (round_matrices E X self w)"
  note run = complete_run [OF assms(1)]
  have rng: "in_range X (i, j)" using assms(2,3) by (simp add: in_range_def)
  have shape: "map length out = map length X" using put_positions_shape [OF run(2)] .
  have len: "0 \<le> n_burn_in self \<and> 0 \<le> n_imputations self \<longrightarrow>
        length ?S = nat (n_imputations self)" using run(1) by auto
  have cell: "get2 out (i, j) =
       (if get2 X (i, j) = None then np_mean (map (\<lambda>Xm. get2 Xm (i, j)) ?S) else get2 X (i, j))"
  proof (cases "get2 X (i, j) = None")
    case True
    from where_true_index [OF rng True] obtain k where k: "k < length ?ps" "?ps ! k = (i, j)" .
    have "\<forall>p \<in> set ?ps. in_range X p" by (simp add: where_true_isnan)
    from put_positions_hit [OF run(2) distinct_where_true this k(1)]
    show ?thesis using mean_axis0_samples [OF k(1), of ?S] k(2) True by simp
  next
    case False
    then have "(i, j) \<notin> set ?ps" by (simp add: where_true_isnan)
    from put_positions_other [OF run(2) this] False show ?thesis by auto
  qed
  from shape cell len show ?thesis by blast
qed


theorem complete_mean_of_samples_witness:
  "fst (complete ref_env [[Some 1, None], [Some 2, Some 4], [Some 3, Some 6]]
          (default_mice\<lparr>n_burn_in := 1, n_imputations := 2\<rparr>) ref_world)
     = Inr [[Some 1, Some (15 / 2)], [Some 2, Some 4], [Some 3, Some 6]] \<and>
   Some (15 / 2) = np_mean (map (\<lambda>Xm. get2 Xm (0, 1))
      (drop 1 (round_matrices ref_env [[Some 1, None], [Some 2, Some 4], [Some 3, Some 6]]
          (default_mice\<lparr>n_burn_in := 1, n_imputations := 2\<rparr>) ref_world)))"
proof -
  let ?X = "[[Some 1, None], [Some 2, Some 4], [Some 3, Some (6::real)]]"
  let ?c = "default_mice\<lparr>n_burn_in := 1, n_imputations := 2\<rparr>"
  let ?out = "[[Some 1, Some (15 / 2)], [Some 2, Some 4], [Some 3, Some (6::real)]]"
  have ev: "fst (complete ref_env ?X ?c ref_world) = Inr ?out"
    by (simp add: array_defs mice_defs ref_defs Let_def eval_nat_numeral)
  then obtain s' w' where run: "complete ref_env ?X ?c ref_world = (Inr ?out, s', w')"
    by (cases "complete ref_env ?X ?c ref_world") auto
  have nb: "nat (n_burn_in ?c) = 1" by (simp add: default_mice_def)
  from complete_mean_of_samples [OF run, of 0 1] ev nb show ?thesis
    by (simp add: get2_def)
qed

section \<open>Observed cells\<close>

text \<open>
  Claim C8. Throughout a run, every cell that is observed in the input keeps its
  original value: it is unchanged after the initial fill, after each of the
  \<open>n_burn_in + n_imputations\<close> rounds and in the output, and each per-column
  imputation step changes the working matrix only at the missing positions of its target
  column.
\<close>

theorem observed_cells_unchanged:
  assumes "complete E X self w = (Inr out, self', w')"
    and "i < length X" and "j < length (X ! i)" and "get2 X (i, j) \<noteq> None"
  shows "(\<exists>vis X0 s2 w2. initial_fill E X self w = Some (vis, X0, s2, w2) \<and>
            get2 X0 (i, j) = get2 X (i, j)) \<and>
         length (round_matrices E X self w) = nat (n_burn_in self + n_imputations self) \<and>
         (\<forall>Xm \<in> set (round_matrices E X self w). get2 Xm (i, j) = get2 X (i, j)) \<and>
         get2 out (i, j) = get2 X (i, j) \<and>
         (\<forall>ri acm c Y s v Y' s1 v1.
            impute_column E (isnan X) (invert (isnan X)) ri acm c Y s v = (Inr Y', s1, v1) \<longrightarrow>
            (\<forall>q. \<not> (q \<in> set (where_true_col (isnan X) c)) \<longrightarrow> get2 Y' q = get2 Y q))"
proof -
  have rng: "in_range X (i, j)" using assms(2,3) by (simp add: in_range_def)
  have nm: "\<not> masked (isnan X) (i, j)" using masked_isnan [OF rng] assms(4) by simp
  from complete_Inr [OF assms(1)] obtain vis X0 s2 w2 where
    ini: "initial_fill E X self w = Some (vis, X0, s2, w2)" by blast
  have x0: "get2 X0 (i, j) = get2 X (i, j)" using initial_fill_frame(3) [OF ini nm] .
  have tr: "round_matrices E X self w =
      rounds_trace E (isnan X) (invert (isnan X)) vis
        [0..<nat (n_burn_in s2 + n_imputations s2)] X0 s2 w2"
    using ini by (simp add: round_matrices_def)
  have rounds: "\<forall>Xm \<in> set (round_matrices E X self w). get2 Xm (i, j) = get2 X (i, j)"
    unfolding tr using rounds_trace_frame [of _ E "isnan X" _ vis _ X0 s2 w2 "(i, j)"] nm x0
    by auto
  note run = complete_run [OF assms(1)]
  have "(i, j) \<notin> set (where_true (isnan X))" using assms(4) by (simp add: where_true_isnan)
  from put_positions_other [OF run(2) this] have out: "get2 out (i, j) = get2 X (i, j)" .
  have step: "\<forall>ri acm c Y s v Y' s1 v1.
            impute_column E (isnan X) (invert (isnan X)) ri acm c Y s v = (Inr Y', s1, v1) \<longrightarrow>
            (\<forall>q. \<not> (q \<in> set (where_true_col (isnan X) c)) \<longrightarrow> get2 Y' q = get2 Y q)"
  proof (intro allI impI)
    fix ri acm c Y s v Y' s1 v1 q
    assume st: "impute_column E (isnan X) (invert (isnan X)) ri acm c Y s v = (Inr Y', s1, v1)"
      and q: "q \<notin> set (where_true_col (isnan X) c)"
    from impute_column_cases [OF st] q show "get2 Y' q = get2 Y q"
      by (auto dest: put_positions_other)
  qed
  from ini x0 run(1) rounds out step show ?thesis by blast
qed

theorem observed_cells_unchanged_witness:
  "fst (complete ref_env [[Some 1, None], [Some 2, Some 4], [Some 3, Some 6]]
          (default_mice\<lparr>n_burn_in := 1, n_imputations := 2\<rparr>) ref_world)
     = Inr [[Some 1, Some (15 / 2)], [Some 2, Some 4], [Some 3, Some 6]] \<and>
   length (round_matrices ref_env [[Some 1, None], [Some 2, Some 4], [Some 3, Some 6]]
          (default_mice\<lparr>n_burn_in := 1, n_imputations := 2\<rparr>) ref_world) = 3 \<and>
   list_all (\<lambda>Xm. get2 Xm (1, 1) = Some 4)
      (round_matrices ref_env [[Some 1, None], [Some 2, Some 4], [Some 3, Some 6]]
          (default_mice\<lparr>n_burn_in := 1, n_imputations := 2\<rparr>) ref_world)"
proof -
  let ?X = "[[Some 1, None], [Some 2, Some 4], [Some 3, Some (6::real)]]"
  let ?c = "default_mice\<lparr>n_burn_in := 1, n_imputations := 2\<rparr>"
  let ?out = "[[Some 1, Some (15 / 2)], [Some 2, Some 4], [Some 3, Some (6::real)]]"
  have ev: "fst (complete ref_env ?X ?c ref_world) = Inr ?out"
    by (simp add: array_defs mice_defs ref_defs Let_def eval_nat_numeral)
  then obtain s' w' where run: "complete ref_env ?X ?c ref_world = (Inr ?out, s', w')"
    by (cases "complete ref_env ?X ?c ref_world") auto
  have h: "(1::nat) < length ?X" "(1::nat) < length (?X ! 1)" "get2 ?X (1, 1) \<noteq> None"
    by (simp_all add: get2_def)
  have n: "nat (n_burn_in ?c + n_imputations ?c) = 3" by (simp add: default_mice_def)
  from observed_cells_unchanged [OF run h] ev n show ?thesis
    by (simp add: get2_def list_all_iff)
qed

lemma n_cols_isnan [simp]: "n_cols (isnan X) = n_cols X"
  by (cases X) (simp_all add: n_cols_def isnan_def)




section \<open>Input without missing entries\<close>






section \<open>Predictive mean matching\<close>







lemma impute_column_skip:
  assumes "impute_column E mm om ri acm c X self w = (Inr X', self', w')"
    and "sum_axis0 mm ! c = 0"
  shows "X' = X"
  using assms by (simp add: impute_column_def Let_def split: if_splits)













section \<open>Completing a row: the checks\<close>




text \<open>
  Claim C10. When \<open>fitted_models\<close> is passed to \<open>complete_row\<close>, the length of
  the row is compared with the shape of the object's own \<open>self.fitted_models\<close>, not
  with the passed array: without stored models the call fails on the attribute access,
  a row that does not fit the stored array is rejected whatever was passed, and a row
  that fits the stored array passes the check whatever was passed.
\<close>

theorem complete_row_length_check:
  "(fitted_models self = None \<longrightarrow>
      fst (complete_row E (Array1 x) (Some fm) seed_arg self w)
        = Inl (AttributeError ''NoneType object has no attribute shape'')) \<and>
   (\<forall>own width. fitted_models self = Some own \<and> shape1 own = Inr width \<and> length x \<noteq> width \<longrightarrow>
      fst (complete_row E (Array1 x) (Some fm) seed_arg self w)
        = Inl (Exception ''Input array has incorrect length!'')) \<and>
   (\<forall>own. fitted_models self = Some own \<and> shape1 own = Inr (length x) \<and>
      impute_type self = ''col'' \<and> list_all (\<lambda>c. c \<noteq> None) x \<longrightarrow>
      fst (complete_row E (Array1 x) (Some fm) seed_arg self w) = Inr x)"
proof -
  have "list_all (\<lambda>c. c \<noteq> None) x \<Longrightarrow> count_true (isnan1 x) = 0"
    by (auto simp: count_true_def isnan1_def filter_empty_conv list_all_iff)
  then show ?thesis by (auto simp: complete_row_def Let_def)
qed

theorem complete_row_length_check_witness:
  "fst (complete_row ref_env (Array1 [Some 1, None]) (Some [[0, 0]]) None default_mice ref_world)
     = Inl (AttributeError ''NoneType object has no attribute shape'') \<and>
   fst (complete_row ref_env (Array1 [Some 1, None]) (Some [[0, 0]]) None
          (default_mice\<lparr>fitted_models := Some [[0, 0, 0]]\<rparr>) ref_world)
     = Inl (Exception ''Input array has incorrect length!'') \<and>
   fst (complete_row ref_env (Array1 [Some 1, Some 2]) (Some [[0, 0, 0]]) None
          (default_mice\<lparr>fitted_models := Some [[0, 0]]\<rparr>) ref_world)
     = Inr [Some 1, Some 2]"
proof -
  have a: "fitted_models default_mice = None" by (simp add: default_mice_def)
  have b: "fitted_models (default_mice\<lparr>fitted_models := Some [[0, 0, 0]]\<rparr>) = Some [[0, 0, 0]] \<and>
      shape1 [[0::nat, 0, 0]] = Inr 3 \<and> length [Some (1::real), None] \<noteq> 3"
    by (simp add: shape1_def)
  have c: "fitted_models (default_mice\<lparr>fitted_models := Some [[0, 0]]\<rparr>) = Some [[0, 0]] \<and>
      shape1 [[0::nat, 0]] = Inr (length [Some (1::real), Some 2]) \<and>
      impute_type (default_mice\<lparr>fitted_models := Some [[0, 0]]\<rparr>) = ''col'' \<and>
      list_all (\<lambda>c. c \<noteq> None) [Some (1::real), Some 2]"
    by (simp add: shape1_def default_mice_def)
  from complete_row_length_check [of default_mice ref_env "[Some 1, None]" "[[0, 0]]" None ref_world] a
  have 1: "fst (complete_row ref_env (Array1 [Some 1, None]) (Some [[0, 0]]) None default_mice ref_world)
     = Inl (AttributeError ''NoneType object has no attribute shape'')" by blast
  from complete_row_length_check [of "default_mice\<lparr>fitted_models := Some [[0, 0, 0]]\<rparr>" ref_env
      "[Some 1, None]" "[[0, 0]]" None ref_world] b
  have 2: "fst (complete_row ref_env (Array1 [Some 1, None]) (Some [[0, 0]]) None
          (default_mice\<lparr>fitted_models := Some [[0, 0, 0]]\<rparr>) ref_world)
     = Inl (Exception ''Input array has incorrect length!'')" by blast
  from complete_row_length_check [of "default_mice\<lparr>fitted_models := Some [[0, 0]]\<rparr>" ref_env
      "[Some 1, Some 2]" "[[0, 0, 0]]" None ref_world] c
  have 3: "fst (complete_row ref_env (Array1 [Some 1, Some 2]) (Some [[0, 0, 0]]) None
          (default_mice\<lparr>fitted_models := Some [[0, 0]]\<rparr>) ref_world)
     = Inr [Some 1, Some 2]" by blast
  from 1 2 3 show ?thesis by blast
qed

section \<open>The seed\<close>




section \<open>The stored models\<close>

lemma save_fitted_model_aliased:
  assumes "save_fitted_model self ri c (model self) = Inr self1" and "aliased self"
  shows "self1 = self"
proof (cases ri)
  case None
  with assms(1) show ?thesis by (simp add: save_fitted_model_def)
next
  case (Some m)
  show ?thesis
  proof (cases "fitted_models self")
    case None
    with assms(1) Some show ?thesis by (simp add: save_fitted_model_def)
  next
    case fm: (Some fm)
    with assms(1) Some have rng: "m < length fm" "c < length (fm ! m)"
      and s1: "self1 = self\<lparr>fitted_models := Some (fm[m := (fm ! m)[c := model self]])\<rparr>"
      by (auto simp: save_fitted_model_def split: if_splits)
    from assms(2) fm rng have "fm ! m ! c = model self"
      by (simp add: aliased_def list_all_length)
    then have "fm[m := (fm ! m)[c := model self]] = fm"
      by (metis list_update_id)
    with s1 fm show ?thesis by (metis mice.surjective mice.update_convs(12) fm)
  qed
qed

lemma impute_column_aliased:
  assumes "impute_column E mm om ri acm c X self w = (r, self', w')" and "aliased self"
  shows "self' = self"
proof (cases "save_fitted_model self ri c (model self)")
  case (Inl e)
  with assms(1) show ?thesis
    by (simp add: impute_column_def Let_def split: if_splits prod.splits sum.splits)
next
  case (Inr self1)
  from save_fitted_model_aliased [OF Inr assms(2)] have "self1 = self" .
  with Inr assms(1) show ?thesis
    by (simp add: impute_column_def Let_def split: if_splits prod.splits sum.splits)
qed

lemma round_loop_aliased:
  assumes "round_loop E mm om ri acm vis X self w = (r, self', w')" and "aliased self"
  shows "self' = self"
  using assms(1)
proof (induction vis arbitrary: X w)
  case Nil
  then show ?case by simp
next
  case (Cons c vis)
  show ?case
  proof (cases "impute_column E mm om ri acm c X self w")
    case (fields r1 s1 w1)
    from impute_column_aliased [OF fields assms(2)] have s1: "s1 = self" .
    show ?thesis
    proof (cases r1)
      case (Inl e)
      with fields s1 Cons.prems show ?thesis by simp
    next
      case (Inr X1)
      with fields s1 Cons.prems have "round_loop E mm om ri acm vis X1 self w1 = (r, self', w')"
        by simp
      then show ?thesis by (rule Cons.IH)
    qed
  qed
qed

lemma rounds_loop_aliased:
  assumes "rounds_loop E mm om vis ms X rs self w = (r, self', w')" and "aliased self"
  shows "self' = self"
  using assms(1)
proof (induction ms arbitrary: X rs w)
  case Nil
  then show ?case by simp
next
  case (Cons m ms)
  show ?case
  proof (cases "perform_imputation_round E X mm om vis (Some m) self w")
    case (fields r1 s1 w1)
    then have "round_loop E mm om (Some m)
        (if exceeds_nearest_columns self (n_cols X) then map (map np_abs) (corrcoef E X) else [])
        vis X self w = (r1, s1, w1)"
      by (simp add: perform_imputation_round_def Let_def)
    from round_loop_aliased [OF this assms(2)] have s1: "s1 = self" .
    show ?thesis
    proof (cases r1)
      case (Inl e)
      with fields s1 Cons.prems show ?thesis by simp
    next
      case (Inr X1)
      with fields s1 Cons.prems obtain rs1 where
        "rounds_loop E mm om vis ms X1 rs1 self w1 = (r, self', w')" by simp
      then show ?thesis by (rule Cons.IH)
    qed
  qed
qed

lemma initialize_column_models:
  assumes "initialize_column E mm om c X self w = (r, self', w')"
  shows "fitted_models self' = fitted_models self \<and> model self' = model self"
  using assms
  by (auto simp: initialize_column_def Let_def split: if_splits prod.splits sum.splits)

lemma initialize_loop_models:
  assumes "initialize_loop E mm om vis X self w = (r, self', w')"
  shows "fitted_models self' = fitted_models self \<and> model self' = model self"
  using assms
proof (induction vis arbitrary: X self w)
  case Nil
  then show ?case by simp
next
  case (Cons c vis)
  show ?case
  proof (cases "initialize_column E mm om c X self w")
    case (fields r1 s1 w1)
    note m = initialize_column_models [OF fields]
    show ?thesis
    proof (cases r1)
      case (Inl e)
      with fields m Cons.prems show ?thesis by simp
    next
      case (Inr X1)
      with fields Cons.prems have "initialize_loop E mm om vis X1 s1 w1 = (r, self', w')" by simp
      from Cons.IH [OF this] m show ?thesis by simp
    qed
  qed
qed

lemma complete_slots_alias_model:
  assumes "complete E X self w = (r, self', w')"
  shows "fitted_models self' =
     Some (replicate (nat (n_burn_in self + n_imputations self)) (replicate (n_cols X) (model self)))"
    and "model self' = model self"
proof -
  let ?fm = "replicate (nat (n_burn_in self + n_imputations self)) (replicate (n_cols X) (model self))"
  let ?s1 = "self\<lparr>fitted_models := Some ?fm\<rparr>"
  have goal: "fitted_models self' = Some ?fm \<and> model self' = model self"
  proof (cases "check_input E X")
    case (Some e)
    with assms show ?thesis by (auto simp: complete_def multiple_imputations_def)
  next
    case ci: None
    show ?thesis
    proof (cases "check_missing_value_mask E (isnan X)")
      case (Some e)
      with assms ci show ?thesis by (auto simp: complete_def multiple_imputations_def Let_def)
    next
      case cm: None
      show ?thesis
      proof (cases "get_visit_indices E ?s1 (isnan X)")
        case (Inl e)
        with assms ci cm show ?thesis by (auto simp: complete_def multiple_imputations_def Let_def)
      next
        case (Inr vis)
        show ?thesis
        proof (cases "initialize E X (isnan X) (invert (isnan X)) vis (?s1\<lparr>visit_indices := Some vis\<rparr>) w")
          case (fields r2 s2 w2)
          from fields have m2: "fitted_models s2 = Some ?fm \<and> model s2 = model self"
            using initialize_loop_models [of E "isnan X" "invert (isnan X)" vis X _ w r2 s2 w2]
            by (simp add: initialize_def)
          then have al: "aliased s2" by (simp add: aliased_def list_all_iff)
          show ?thesis
          proof (cases r2)
            case (Inl e)
            with assms ci cm Inr fields m2 show ?thesis
              by (auto simp: complete_def multiple_imputations_def Let_def)
          next
            case X0: (Inr X0)
            show ?thesis
            proof (cases "rounds_loop E (isnan X) (invert (isnan X)) vis
                [0..<nat (n_burn_in s2 + n_imputations s2)] X0 [] s2 w2")
              case lp: (fields r3 s3 w3)
              from rounds_loop_aliased [OF lp al] have "s3 = s2" .
              with assms ci cm Inr fields X0 lp m2 show ?thesis
                by (auto simp: complete_def multiple_imputations_def Let_def split: sum.splits)
            qed
          qed
        qed
      qed
    qed
  qed
  from goal show "fitted_models self' = Some ?fm" and "model self' = model self" by simp_all
qed

text \<open>
  Claim C2 does not hold of the code. After two rounds on a matrix with a missing entry in
  each of its two columns, every slot of \<open>fitted_models\<close> is the address of the one
  object \<open>self.model\<close>, whose state is the last fit (round 1, column 0: its targets
  are the observed values of column 0), so slot [0][1] does not hold the model fitted for
  column 1 at round 0. And a row with a missing entry in a column that had none during
  the run is completed with that shared object.
\<close>

theorem fitted_models_alias_one_object:
  "fitted_models (fst (snd (run_complete ref_env (default_mice\<lparr>n_burn_in := 1, n_imputations := 1\<rparr>)
       [[Some 1, None], [None, Some 4], [Some 3, Some 6]] ref_world)))
     = Some [[0, 0], [0, 0]] \<and>
   heap (snd (snd (run_complete ref_env (default_mice\<lparr>n_burn_in := 1, n_imputations := 1\<rparr>)
       [[Some 1, None], [None, Some 4], [Some 3, Some 6]] ref_world))) 0
     = ([[Some 8], [Some 6]], [Some 1, Some 3]) \<and>
   observed_values [[Some 1, None], [None, Some 4], [Some 3, Some 6]] 0 = [Some 1, Some 3] \<and>
   observed_values [[Some 1, None], [None, Some 4], [Some 3, Some 6]] 1 = [Some 4, Some 6] \<and>
   fst (complete_then_complete_row ref_env (default_mice\<lparr>n_burn_in := 1, n_imputations := 1\<rparr>)
       [[Some 1, None], [Some 2, Some 4], [Some 3, Some 6]] (Array1 [None, Some 5]) ref_world)
     = Inr [Some 13, Some 5]"
proof -
  let ?c = "default_mice\<lparr>n_burn_in := 1, n_imputations := 1\<rparr>"
  let ?X2 = "[[Some 1, None], [None, Some 4], [Some 3, Some (6::real)]]"
  let ?X1 = "[[Some 1, None], [Some 2, Some 4], [Some 3, Some (6::real)]]"
  have a: "fitted_models (fst (snd (run_complete ref_env ?c ?X2 ref_world))) = Some [[0, 0], [0, 0]]"
    by (simp add: run_complete_def array_defs mice_defs ref_defs Let_def eval_nat_numeral)
  have b: "heap (snd (snd (run_complete ref_env ?c ?X2 ref_world))) 0
      = ([[Some 8], [Some 6]], [Some 1, Some 3])"
    by (simp add: run_complete_def array_defs mice_defs ref_defs Let_def eval_nat_numeral)
  have c: "observed_values ?X2 0 = [Some 1, Some 3]" "observed_values ?X2 1 = [Some 4, Some 6]"
    by (simp_all add: observed_values_def column_def)
  have d: "fst (complete_then_complete_row ref_env ?c ?X1 (Array1 [None, Some 5]) ref_world)
      = Inr [Some 13, Some 5]"
    by (simp add: complete_then_complete_row_def run_complete_def array_defs mice_defs ref_defs
          Let_def eval_nat_numeral)
  from a b c d show ?thesis by blast
qed

text \<open>
  Claim C4 does not hold of the code for an unrecognised impute mode. The call fills the
  matrix, fits the model of the first visited column and only then fails, on the unbound
  variable; with no round to run it returns the matrix with its NaN and no error. An
  unrecognised visit order is rejected before any of this.
\<close>

theorem unknown_impute_type_not_preflight:
  "fst (complete ref_env [[Some 1, None], [Some 2, Some 4], [Some 3, Some 6]]
          (default_mice\<lparr>n_burn_in := 0, n_imputations := 1, impute_type := ''foo''\<rparr>) ref_world)
     = Inl (UnboundLocalError ''imputed_values referenced before assignment'') \<and>
   heap ref_world 0 = ([], []) \<and>
   heap (snd (snd (complete ref_env [[Some 1, None], [Some 2, Some 4], [Some 3, Some 6]]
          (default_mice\<lparr>n_burn_in := 0, n_imputations := 1, impute_type := ''foo''\<rparr>) ref_world))) 0
     = ([[Some 2], [Some 3]], [Some 4, Some 6]) \<and>
   fst (complete ref_env [[Some 1, None], [Some 2, Some 4], [Some 3, Some 6]]
          (default_mice\<lparr>n_burn_in := 0, n_imputations := 0, impute_type := ''foo''\<rparr>) ref_world)
     = Inr [[Some 1, None], [Some 2, Some 4], [Some 3, Some 6]] \<and>
   fst (complete ref_env [[Some 1, None], [Some 2, Some 4], [Some 3, Some 6]]
          (default_mice\<lparr>n_burn_in := 0, n_imputations := 1, visit_sequence := ''foo''\<rparr>) ref_world)
     = Inl (ValueError ''Invalid choice for visit order: foo'') \<and>
   heap (snd (snd (complete ref_env [[Some 1, None], [Some 2, Some 4], [Some 3, Some 6]]
          (default_mice\<lparr>n_burn_in := 0, n_imputations := 1, visit_sequence := ''foo''\<rparr>) ref_world))) 0
     = ([], [])"
proof -
  let ?X = "[[Some 1, None], [Some 2, Some 4], [Some 3, Some (6::real)]]"
  let ?f = "default_mice\<lparr>n_burn_in := 0, n_imputations := 1, impute_type := ''foo''\<rparr>"
  let ?z = "default_mice\<lparr>n_burn_in := 0, n_imputations := 0, impute_type := ''foo''\<rparr>"
  let ?v = "default_mice\<lparr>n_burn_in := 0, n_imputations := 1, visit_sequence := ''foo''\<rparr>"
  have a: "fst (complete ref_env ?X ?f ref_world)
      = Inl (UnboundLocalError ''imputed_values referenced before assignment'')"
    by (simp add: array_defs mice_defs ref_defs Let_def eval_nat_numeral)
  have b: "heap (snd (snd (complete ref_env ?X ?f ref_world))) 0
      = ([[Some 2], [Some 3]], [Some 4, Some 6])"
    by (simp add: array_defs mice_defs ref_defs Let_def eval_nat_numeral)
  have c: "fst (complete ref_env ?X ?z ref_world) = Inr ?X"
    by (simp add: array_defs mice_defs ref_defs Let_def eval_nat_numeral)
  have d: "fst (complete ref_env ?X ?v ref_world)
      = Inl (ValueError ''Invalid choice for visit order: foo'')"
    by (simp add: array_defs mice_defs ref_defs Let_def eval_nat_numeral)
  have e: "heap (snd (snd (complete ref_env ?X ?v ref_world))) 0 = ([], [])"
    by (simp add: array_defs mice_defs ref_defs Let_def eval_nat_numeral)
  have f: "heap ref_world 0 = ([], [])" by (simp add: ref_world_def)
  from a b c d e f show ?thesis by blast
qed

end
